theory Spec2Isabelle
  imports Complex_Main "HOL-Library.AList" "HOL-Library.Sublist"
begin

section \<open>Conventions of the embedding\<close>

text \<open>
  The development embeds the ingestion pipeline of \<^verbatim>\<open>data-connectors-no-db-4\<close>:
  rolling buffers, tick normalizers, the two timeframe aggregators, the dispatcher's
  payload construction, the polling loop and the connectors' health snapshots.

  \<^item> A JavaScript \<^verbatim>\<open>number\<close> that carries a price, a size or a volume is a \<^typ>\<open>real\<close>;
    one that carries a count, a capacity, a status code or an epoch-millisecond instant
    is an \<^typ>\<open>int\<close>. Rounding and NaN are outside the model.
  \<^item> An ISO-8601 string produced by \<^verbatim>\<open>Date.prototype.toISOString\<close> is represented by
    the epoch-millisecond value it denotes (the two are in bijection on valid dates), so
    \<^verbatim>\<open>ts\<close>, \<^verbatim>\<open>datetime\<close> and \<^verbatim>\<open>lastMessageTime\<close> are of type \<^typ>\<open>int\<close>.
  \<^item> An optional field is an \<^typ>\<open>'a option\<close>; \<^verbatim>\<open>undefined\<close> and \<^verbatim>\<open>null\<close> are both
    \<^term>\<open>None\<close>.
  \<^item> A \<^verbatim>\<open>Map\<close> whose iteration order is observable is an association list in insertion
    order.
  \<^item> Reading the clock (\<^verbatim>\<open>Date.now()\<close>, \<^verbatim>\<open>new Date()\<close>) is an explicit argument
    \<open>now\<close>.
\<close>

subsection \<open>JavaScript primitives used by the sources\<close>

datatype js_error = RangeError | TypeError | Error string

text \<open>\<^verbatim>\<open>a || b\<close> on optional numbers: \<open>a\<close> when it is truthy (present and non-zero),
  otherwise \<open>b\<close>.\<close>

definition truthy_num :: "real option \<Rightarrow> bool" where
  "truthy_num a = (case a of None \<Rightarrow> False | Some x \<Rightarrow> x \<noteq> 0)"

definition js_or :: "real option \<Rightarrow> real option \<Rightarrow> real option" where
  "js_or a b = (if truthy_num a then a else b)"

text \<open>\<^verbatim>\<open>x || 0\<close> for an optional number.\<close>

definition or_zero :: "real option \<Rightarrow> real" where
  "or_zero a = (case a of None \<Rightarrow> 0 | Some x \<Rightarrow> x)"

text \<open>\<^verbatim>\<open>new Date(ms).toISOString()\<close>: a time value outside \<open>\<plusminus>8.64e15\<close> is an invalid
  date and \<^verbatim>\<open>toISOString\<close> throws a RangeError.\<close>

definition toISOString :: "int \<Rightarrow> js_error + int" where
  "toISOString ms = (if \<bar>ms\<bar> \<le> 8640000000000000 then Inr ms else Inl RangeError)"

text \<open>\<^verbatim>\<open>new Date(str).toISOString()\<close>: the parser of date strings is a parameter
  \<open>parseDate\<close>, \<^term>\<open>None\<close> standing for an invalid date.\<close>

definition parseToISOString :: "(string \<Rightarrow> int option) \<Rightarrow> string \<Rightarrow> js_error + int" where
  "parseToISOString parseDate str =
     (case parseDate str of None \<Rightarrow> Inl RangeError | Some ms \<Rightarrow> toISOString ms)"

text \<open>\<^verbatim>\<open>String.prototype.startsWith\<close>.\<close>

definition startsWith :: "string \<Rightarrow> string \<Rightarrow> bool" where
  "startsWith k p = prefix p k"

text \<open>Conversion of an integral number to a string inside a template literal: decimal
  digits, with a leading minus sign for a negative value.\<close>

definition digit_char :: "nat \<Rightarrow> char" where
  "digit_char d = ''0123456789'' ! d"

fun dec_nat :: "nat \<Rightarrow> string" where
  "dec_nat n = (if n < 10 then [digit_char n] else dec_nat (n div 10) @ [digit_char (n mod 10)])"

declare dec_nat.simps [simp del]

definition Number_toString :: "int \<Rightarrow> string" where
  "Number_toString i = (if i < 0 then CHR ''-'' # dec_nat (nat (- i)) else dec_nat (nat i))"

subsection \<open>Types of \<^verbatim>\<open>types/index.ts\<close>\<close>

record NormalizedTick =
  ts :: int
  price :: real
  tsize :: "real option"
  symbol :: string
  exchange :: string

record Candle =
  datetime :: int
  c_open :: real
  c_high :: real
  c_low :: real
  c_close :: real
  c_volume :: real

record UnivariateDataPoint =
  u_datetime :: int
  u_value :: real

record TimeframeConfig =
  seconds :: int
  label :: string
  bufferSize :: int

datatype HealthStatus = connected | disconnected | error

record RateLimitInfo =
  remaining :: int
  reset :: string

record ConnectorHealth =
  status :: HealthStatus
  lastMessageTime :: "int option"
  errorCount :: int
  uptime :: int
  rateLimitInfo :: "RateLimitInfo option"

section \<open>Rolling window buffer (\<^verbatim>\<open>core/buffer.ts\<close>, \<^verbatim>\<open>core/univariateBuffer.ts\<close>)\<close>

text \<open>
  \<^verbatim>\<open>Buffer\<close> and \<^verbatim>\<open>UnivariateBuffer\<close> are the same code over two record types, so one
  polymorphic record embeds both; \<open>items\<close> is the array \<^verbatim>\<open>candles\<close> (respectively
  \<^verbatim>\<open>dataPoints\<close>), oldest first.
\<close>

record 'a Buffer =
  maxSize :: int
  items :: "'a list"
  timeframeLabel :: string

definition new_Buffer :: "int \<Rightarrow> string \<Rightarrow> 'a Buffer" where
  "new_Buffer m l = \<lparr>maxSize = m, items = [], timeframeLabel = l\<rparr>"

text \<open>\<^verbatim>\<open>push\<close>: append, then drop the oldest element if the length exceeds \<open>maxSize\<close>.\<close>

definition push :: "'a \<Rightarrow> 'a Buffer \<Rightarrow> 'a Buffer" where
  "push x b =
     (let xs = items b @ [x]
      in b\<lparr>items := (if int (length xs) > maxSize b then tl xs else xs)\<rparr>)"

text \<open>\<^verbatim>\<open>Array.prototype.slice(start)\<close> with one integral argument: a negative start counts
  from the end and is clamped at 0, a non-negative start is clamped at the length.\<close>

definition slice_from :: "int \<Rightarrow> 'a list \<Rightarrow> 'a list" where
  "slice_from start xs =
     (let len = int (length xs);
          k = (if start < 0 then max (len + start) 0 else min start len)
      in drop (nat k) xs)"

text \<open>\<^verbatim>\<open>getLast(count)\<close> is \<^verbatim>\<open>slice(-count)\<close>; the result is a fresh array and the buffer
  is not written.\<close>

definition getLast :: "int \<Rightarrow> 'a Buffer \<Rightarrow> 'a list" where
  "getLast count b = slice_from (- count) (items b)"


definition isFull :: "'a Buffer \<Rightarrow> bool" where
  "isFull b = (int (length (items b)) \<ge> maxSize b)"

text \<open>The specified result of \<open>get-last(n)\<close>: the most recent \<open>min(n, size)\<close> records,
  oldest first.\<close>

definition most_recent :: "nat \<Rightarrow> 'a list \<Rightarrow> 'a list" where
  "most_recent n xs = drop (length xs - min n (length xs)) xs"

section \<open>Results on the rolling buffer\<close>


lemma getLast_empty: "items b = [] \<Longrightarrow> getLast k b = []"
  by (simp add: getLast_def slice_from_def Let_def)

text \<open>
  Claim C5. \<open>get-last(n)\<close> is specified to return the most recent \<open>min(n, size)\<close> records,
  hence no record for \<open>n = 0\<close>. \<^verbatim>\<open>getLast(0)\<close> evaluates \<^verbatim>\<open>slice(-0)\<close>, that is
  \<^verbatim>\<open>slice(0)\<close>, and returns the whole content of a non-empty buffer: on a buffer
  holding the records 10 and 20 it returns both, where the specified result is empty.
\<close>

theorem C5_getLast_zero_returns_all:
  "getLast 0 \<lparr>maxSize = 5, items = [10::int, 20], timeframeLabel = ''1m''\<rparr> = [10, 20]
   \<and> most_recent 0 [10::int, 20] = []"
  by (simp add: getLast_def slice_from_def most_recent_def)

section \<open>Tick normalizers\<close>

subsection \<open>Subscription session (\<^verbatim>\<open>connectors/bloomberg/normalizer.ts\<close>)\<close>

record BloombergTickData =
  LAST_PRICE :: "real option"
  BID :: "real option"
  ASK :: "real option"
  VOLUME :: "real option"
  LAST_TRADE :: "real option"
  TIME :: "string option"

text \<open>Truthiness of an optional string: present and non-empty.\<close>

definition truthy_str :: "string option \<Rightarrow> bool" where
  "truthy_str a = (case a of None \<Rightarrow> False | Some x \<Rightarrow> x \<noteq> [])"

text \<open>
  \<^verbatim>\<open>BloombergNormalizer.normalize\<close>. The price is
  \<^verbatim>\<open>data.LAST_TRADE || data.LAST_PRICE || data.BID || data.ASK\<close>; the result is \<^verbatim>\<open>null\<close>
  (here \<^term>\<open>Inr None\<close>) when that is \<^verbatim>\<open>undefined\<close> or \<^verbatim>\<open>null\<close>. The timestamp is
  \<^verbatim>\<open>data.TIME ? new Date(data.TIME).toISOString() : new Date().toISOString()\<close>.
\<close>

definition BloombergNormalizer_normalize ::
  "(string \<Rightarrow> int option) \<Rightarrow> int \<Rightarrow> BloombergTickData \<Rightarrow> string
     \<Rightarrow> js_error + NormalizedTick option" where
  "BloombergNormalizer_normalize parseDate now d security =
     (case js_or (js_or (js_or (LAST_TRADE d) (LAST_PRICE d)) (BID d)) (ASK d) of
        None \<Rightarrow> Inr None
      | Some pr \<Rightarrow>
          (case (case TIME d of
                   Some str \<Rightarrow> if str \<noteq> [] then parseToISOString parseDate str
                               else toISOString now
                 | None \<Rightarrow> toISOString now) of
             Inl err \<Rightarrow> Inl err
           | Inr timestamp \<Rightarrow>
               Inr (Some \<lparr>ts = timestamp, price = pr, tsize = VOLUME d,
                          symbol = security, exchange = ''bloomberg''\<rparr>)))"

text \<open>The specified choice of the price: the first non-null value of a list of optional
  fields, zero included.\<close>

fun first_non_null :: "real option list \<Rightarrow> real option" where
  "first_non_null [] = None"
| "first_non_null (None # xs) = first_non_null xs"
| "first_non_null (Some x # xs) = Some x"

subsection \<open>Polling weather source (\<^verbatim>\<open>AccuWeatherNormalizer\<close>, \<^verbatim>\<open>src/unnamed/part_004\<close>)\<close>

text \<open>\<open>Temperature_Metric_Value\<close> is the optional chain
  \<^verbatim>\<open>raw.Temperature?.Metric?.Value\<close>.\<close>

record AccuWeatherCurrentConditions =
  LocalObservationDateTime :: "string option"
  EpochTime :: "int option"
  Temperature_Metric_Value :: "real option"
  RelativeHumidity :: "real option"

definition AccuWeatherNormalizer_normalize ::
  "(string \<Rightarrow> int option) \<Rightarrow> int \<Rightarrow> AccuWeatherCurrentConditions \<Rightarrow> string
     \<Rightarrow> js_error + NormalizedTick option" where
  "AccuWeatherNormalizer_normalize parseDate now raw locationKey =
     (case Temperature_Metric_Value raw of
        None \<Rightarrow> Inr None
      | Some v \<Rightarrow>
          if v = 0 then Inr None
          else
            (case (if truthy_str (LocalObservationDateTime raw)
                   then parseToISOString parseDate (case LocalObservationDateTime raw of
                                                      Some str \<Rightarrow> str | None \<Rightarrow> [])
                   else (case EpochTime raw of
                           Some ep \<Rightarrow> if ep \<noteq> 0 then toISOString (ep * 1000)
                                      else toISOString now
                         | None \<Rightarrow> toISOString now)) of
               Inl err \<Rightarrow> Inl err
             | Inr timestamp \<Rightarrow>
                 Inr (Some \<lparr>ts = timestamp, price = v, tsize = RelativeHumidity raw,
                            symbol = locationKey, exchange = ''accuweather''\<rparr>)))"

subsection \<open>Streaming crypto trades (\<^verbatim>\<open>connectors/binance/normalizer.ts\<close>)\<close>

text \<open>The fields a trade or aggregated-trade message is read at; an absent string field
  is the empty string and an absent \<^verbatim>\<open>T\<close> is 0 (all of them falsy, as \<^verbatim>\<open>undefined\<close> is).
  \<^verbatim>\<open>parseFloat\<close> is a parameter.\<close>

record BinanceTradeData =
  bn_e :: string
  bn_s :: string
  bn_p :: string
  bn_q :: string
  bn_T :: int

definition BinanceNormalizer_normalizeTrade ::
  "(string \<Rightarrow> real) \<Rightarrow> BinanceTradeData \<Rightarrow> js_error + NormalizedTick option" where
  "BinanceNormalizer_normalizeTrade parseFloat d =
     (if bn_s d = [] \<or> bn_p d = [] \<or> bn_T d = 0 then Inr None
      else (case toISOString (bn_T d) of
              Inl err \<Rightarrow> Inl err
            | Inr timestamp \<Rightarrow>
                Inr (Some \<lparr>ts = timestamp, price = parseFloat (bn_p d),
                           tsize = Some (parseFloat (bn_q d)),
                           symbol = bn_s d, exchange = ''binance''\<rparr>)))"

definition BinanceNormalizer_normalizeAggTrade ::
  "(string \<Rightarrow> real) \<Rightarrow> BinanceTradeData \<Rightarrow> js_error + NormalizedTick option" where
  "BinanceNormalizer_normalizeAggTrade parseFloat d =
     (if bn_s d = [] \<or> bn_p d = [] \<or> bn_T d = 0 then Inr None
      else (case toISOString (bn_T d) of
              Inl err \<Rightarrow> Inl err
            | Inr timestamp \<Rightarrow>
                Inr (Some \<lparr>ts = timestamp, price = parseFloat (bn_p d),
                           tsize = Some (parseFloat (bn_q d)),
                           symbol = bn_s d, exchange = ''binance''\<rparr>)))"

definition BinanceNormalizer_normalize ::
  "(string \<Rightarrow> real) \<Rightarrow> BinanceTradeData \<Rightarrow> js_error + NormalizedTick option" where
  "BinanceNormalizer_normalize parseFloat d =
     (if bn_e d = ''trade'' then BinanceNormalizer_normalizeTrade parseFloat d
      else if bn_e d = ''aggTrade'' then BinanceNormalizer_normalizeAggTrade parseFloat d
      else Inr None)"

subsection \<open>Streaming equities trades (\<^verbatim>\<open>connectors/polygon/normalizer.ts\<close>)\<close>

text \<open>\<open>pg_p\<close> is \<^term>\<open>None\<close> when \<^verbatim>\<open>typeof raw.p !== 'number'\<close>.\<close>

record PolygonTradeMessage =
  pg_ev :: string
  pg_sym :: string
  pg_p :: "real option"
  pg_s :: "real option"
  pg_t :: int

definition PolygonNormalizer_normalize ::
  "PolygonTradeMessage \<Rightarrow> js_error + NormalizedTick option" where
  "PolygonNormalizer_normalize raw =
     (if pg_ev raw \<noteq> ''T'' then Inr None
      else (case pg_p raw of
              None \<Rightarrow> Inr None
            | Some pr \<Rightarrow>
                if pg_sym raw = [] \<or> pg_t raw = 0 then Inr None
                else (case toISOString (pg_t raw) of
                        Inl err \<Rightarrow> Inl err
                      | Inr timestamp \<Rightarrow>
                          Inr (Some \<lparr>ts = timestamp, price = pr,
                                     tsize = Some (or_zero (pg_s raw)),
                                     symbol = pg_sym raw, exchange = ''polygon''\<rparr>))))"

section \<open>Results on the normalizers\<close>

text \<open>
  Claim C6. The subscription-session price is specified as the first non-null value
  among \<open>LAST_TRADE\<close>, \<open>LAST_PRICE\<close>, \<open>BID\<close>, \<open>ASK\<close>, a value 0 included, and the result
  as none exactly when all four are absent. The source chains the fields with \<^verbatim>\<open>||\<close>,
  which also skips a field that is 0: for \<open>LAST_TRADE = 0\<close>, \<open>LAST_PRICE = 5\<close> the tick's
  price is 5 where the first non-null value is 0, and for \<open>LAST_TRADE = 0\<close> alone the
  result is none although a price field is present. A zero is not rejected as such: for
  \<open>ASK = 0\<close> alone, the last operand of the chain, the tick has the price 0.
\<close>

theorem C6_zero_price_skipped:
  "BloombergNormalizer_normalize (\<lambda>x. None) 1000
      \<lparr>LAST_PRICE = Some 5, BID = None, ASK = None, VOLUME = Some 7,
       LAST_TRADE = Some 0, TIME = None\<rparr> ''IBM US Equity''
     = Inr (Some \<lparr>ts = 1000, price = 5, tsize = Some 7,
                  symbol = ''IBM US Equity'', exchange = ''bloomberg''\<rparr>)
   \<and> first_non_null [Some 0, Some 5, None, None] = Some 0
   \<and> BloombergNormalizer_normalize (\<lambda>x. None) 1000
      \<lparr>LAST_PRICE = None, BID = None, ASK = None, VOLUME = Some 7,
       LAST_TRADE = Some 0, TIME = None\<rparr> ''IBM US Equity'' = Inr None
   \<and> first_non_null [Some 0, None, None, None] = Some 0
   \<and> BloombergNormalizer_normalize (\<lambda>x. None) 1000
      \<lparr>LAST_PRICE = None, BID = None, ASK = Some 0, VOLUME = Some 7,
       LAST_TRADE = None, TIME = None\<rparr> ''IBM US Equity''
     = Inr (Some \<lparr>ts = 1000, price = 0, tsize = Some 7,
                  symbol = ''IBM US Equity'', exchange = ''bloomberg''\<rparr>)"
  by (simp add: BloombergNormalizer_normalize_def js_or_def truthy_num_def toISOString_def)

text \<open>What the \<^verbatim>\<open>||\<close> chain does select: the first field that is present and non-zero,
  and otherwise the value of \<open>ASK\<close>.\<close>

lemma js_or_chain:
  "js_or (js_or (js_or a b) c) e =
     (if truthy_num a then a else if truthy_num b then b else if truthy_num c then c else e)"
  by (simp add: js_or_def)

text \<open>
  Claim C9, as stated: normalizing the same raw message twice yields equal ticks. The
  subscription-session normalizer stamps a message without \<open>TIME\<close> with the clock, so the
  same message normalized at two instants yields two different ticks.
\<close>

theorem C9_clock_timestamp_counterexample:
  "BloombergNormalizer_normalize (\<lambda>x. None) 1000
      \<lparr>LAST_PRICE = None, BID = None, ASK = None, VOLUME = None,
       LAST_TRADE = Some 100, TIME = None\<rparr> ''IBM US Equity''
   \<noteq> BloombergNormalizer_normalize (\<lambda>x. None) 2000
      \<lparr>LAST_PRICE = None, BID = None, ASK = None, VOLUME = None,
       LAST_TRADE = Some 100, TIME = None\<rparr> ''IBM US Equity''"
  by (simp add: BloombergNormalizer_normalize_def js_or_def truthy_num_def toISOString_def)

lemma Bloomberg_vendor_time:
  "truthy_str (TIME d) \<Longrightarrow>
   BloombergNormalizer_normalize pd now1 d sec = BloombergNormalizer_normalize pd now2 d sec"
  by (auto simp: BloombergNormalizer_normalize_def truthy_str_def split: option.splits)

lemma AccuWeather_vendor_time:
  "truthy_str (LocalObservationDateTime raw) \<or> (\<exists>ep. EpochTime raw = Some ep \<and> ep \<noteq> 0) \<Longrightarrow>
   AccuWeatherNormalizer_normalize pd now1 raw k = AccuWeatherNormalizer_normalize pd now2 raw k"
  by (auto simp: AccuWeatherNormalizer_normalize_def split: option.splits)

lemma Binance_time_of_message:
  "BinanceNormalizer_normalize pf bd = Inr (Some t) \<Longrightarrow> ts t = bn_T bd"
  by (auto simp: BinanceNormalizer_normalize_def BinanceNormalizer_normalizeTrade_def
      BinanceNormalizer_normalizeAggTrade_def toISOString_def split: if_splits)

lemma Polygon_time_of_message:
  "PolygonNormalizer_normalize pm = Inr (Some t) \<Longrightarrow> ts t = pg_t pm"
  by (auto simp: PolygonNormalizer_normalize_def toISOString_def split: if_splits option.splits)

text \<open>
  Claim C9, amended. A message that carries a vendor timestamp (\<open>TIME\<close> for the
  subscription session; \<open>LocalObservationDateTime\<close> or \<open>EpochTime\<close> for the weather
  source) is normalized to the same result whatever the clock reads, and the streaming
  normalizers, which never read the clock, take the tick's timestamp from the message's
  trade time. Only a message without a vendor timestamp is stamped with the clock.
\<close>

theorem C9_normalize_deterministic_with_vendor_time:
  "(truthy_str (TIME d) \<longrightarrow>
      BloombergNormalizer_normalize pd now1 d sec = BloombergNormalizer_normalize pd now2 d sec)
   \<and> (truthy_str (LocalObservationDateTime raw) \<or> (\<exists>ep. EpochTime raw = Some ep \<and> ep \<noteq> 0) \<longrightarrow>
      AccuWeatherNormalizer_normalize pd now1 raw k = AccuWeatherNormalizer_normalize pd now2 raw k)
   \<and> (BinanceNormalizer_normalize pf bd = Inr (Some t1) \<longrightarrow> ts t1 = bn_T bd)
   \<and> (PolygonNormalizer_normalize pm = Inr (Some t2) \<longrightarrow> ts t2 = pg_t pm)"
  using Bloomberg_vendor_time AccuWeather_vendor_time Binance_time_of_message
    Polygon_time_of_message by blast

text \<open>One message with a vendor timestamp for each source, normalized at the clock readings
  1000 and 2000.\<close>

theorem C9_normalize_deterministic_witness:
  "truthy_str (Some ''1970-01-01T00:00:05Z'')
   \<and> BloombergNormalizer_normalize (\<lambda>x. Some 5000) 1000
      \<lparr>LAST_PRICE = None, BID = None, ASK = None, VOLUME = None,
       LAST_TRADE = Some 100, TIME = Some ''1970-01-01T00:00:05Z''\<rparr> ''IBM US Equity''
   = BloombergNormalizer_normalize (\<lambda>x. Some 5000) 2000
      \<lparr>LAST_PRICE = None, BID = None, ASK = None, VOLUME = None,
       LAST_TRADE = Some 100, TIME = Some ''1970-01-01T00:00:05Z''\<rparr> ''IBM US Equity''
   \<and> AccuWeatherNormalizer_normalize (\<lambda>x. Some 5000) 1000
      \<lparr>LocalObservationDateTime = None, EpochTime = Some 7,
       Temperature_Metric_Value = Some 21, RelativeHumidity = None\<rparr> ''328328''
   = AccuWeatherNormalizer_normalize (\<lambda>x. Some 5000) 2000
      \<lparr>LocalObservationDateTime = None, EpochTime = Some 7,
       Temperature_Metric_Value = Some 21, RelativeHumidity = None\<rparr> ''328328''
   \<and> BinanceNormalizer_normalize (\<lambda>x. 3)
      \<lparr>bn_e = ''trade'', bn_s = ''BTCUSDT'', bn_p = ''3'', bn_q = ''2'', bn_T = 9\<rparr>
   = Inr (Some \<lparr>ts = 9, price = 3, tsize = Some 3, symbol = ''BTCUSDT'', exchange = ''binance''\<rparr>)
   \<and> PolygonNormalizer_normalize
      \<lparr>pg_ev = ''T'', pg_sym = ''AAPL'', pg_p = Some 3, pg_s = Some 2, pg_t = 9\<rparr>
   = Inr (Some \<lparr>ts = 9, price = 3, tsize = Some 2, symbol = ''AAPL'', exchange = ''polygon''\<rparr>)
   \<and> ts \<lparr>ts = 9, price = 3, tsize = Some 3, symbol = ''BTCUSDT'', exchange = ''binance''\<rparr>
     = bn_T \<lparr>bn_e = ''trade'', bn_s = ''BTCUSDT'', bn_p = ''3'', bn_q = ''2'', bn_T = 9\<rparr>
   \<and> ts \<lparr>ts = 9, price = 3, tsize = Some 2, symbol = ''AAPL'', exchange = ''polygon''\<rparr>
     = pg_t \<lparr>pg_ev = ''T'', pg_sym = ''AAPL'', pg_p = Some 3, pg_s = Some 2, pg_t = 9\<rparr>"
  using C9_normalize_deterministic_with_vendor_time
    [where d = "\<lparr>LAST_PRICE = None, BID = None, ASK = None, VOLUME = None,
          LAST_TRADE = Some 100, TIME = Some ''1970-01-01T00:00:05Z''\<rparr>"
       and pd = "\<lambda>x. Some 5000" and ?now1.0 = 1000 and ?now2.0 = 2000
       and sec = "''IBM US Equity''"
       and raw = "\<lparr>LocalObservationDateTime = None, EpochTime = Some 7,
          Temperature_Metric_Value = Some 21, RelativeHumidity = None\<rparr>"
       and k = "''328328''"
       and pf = "\<lambda>x. 3"
       and bd = "\<lparr>bn_e = ''trade'', bn_s = ''BTCUSDT'', bn_p = ''3'', bn_q = ''2'', bn_T = 9\<rparr>"
       and ?t1.0 = "\<lparr>ts = 9, price = 3, tsize = Some 3, symbol = ''BTCUSDT'', exchange = ''binance''\<rparr>"
       and pm = "\<lparr>pg_ev = ''T'', pg_sym = ''AAPL'', pg_p = Some 3, pg_s = Some 2, pg_t = 9\<rparr>"
       and ?t2.0 = "\<lparr>ts = 9, price = 3, tsize = Some 2, symbol = ''AAPL'', exchange = ''polygon''\<rparr>"]
  by (simp add: truthy_str_def BinanceNormalizer_normalize_def
      BinanceNormalizer_normalizeTrade_def PolygonNormalizer_normalize_def toISOString_def
      or_zero_def)

section \<open>Connector health snapshots\<close>

text \<open>
  The fields of each connector class that \<^verbatim>\<open>health()\<close> reads. The four methods are
  \<^verbatim>\<open>BinanceConnector.health\<close> (\<^verbatim>\<open>connectors/binance/binanceConnector.ts\<close>),
  \<^verbatim>\<open>PolygonConnector.health\<close> (\<^verbatim>\<open>src/unnamed/part_007\<close>), \<^verbatim>\<open>BloombergConnector.health\<close>
  (\<^verbatim>\<open>src/unnamed/part_006\<close>) and \<^verbatim>\<open>AccuWeatherConnector.health\<close>
  (\<^verbatim>\<open>src/unnamed/part_005\<close>); \<^verbatim>\<open>uptime\<close> is
  \<^verbatim>\<open>this.startTime ? Date.now() - this.startTime : 0\<close>.
\<close>

record ConnectorFields =
  startTime :: int
  cn_errorCount :: int
  cn_lastMessageTime :: "int option"
  isConnected :: bool

record AccuWeatherFields = ConnectorFields +
  rateLimitRemaining :: int
  rateLimitReset :: "string option"

definition BinanceConnector_health :: "int \<Rightarrow> ConnectorFields \<Rightarrow> ConnectorHealth" where
  "BinanceConnector_health now c =
     \<lparr>status = (if isConnected c then connected else disconnected),
      lastMessageTime = cn_lastMessageTime c,
      errorCount = cn_errorCount c,
      uptime = (if startTime c \<noteq> 0 then now - startTime c else 0),
      rateLimitInfo = None\<rparr>"

definition PolygonConnector_health :: "int \<Rightarrow> ConnectorFields \<Rightarrow> ConnectorHealth" where
  "PolygonConnector_health now c =
     \<lparr>status = (if isConnected c then connected else disconnected),
      lastMessageTime = cn_lastMessageTime c,
      errorCount = cn_errorCount c,
      uptime = (if startTime c \<noteq> 0 then now - startTime c else 0),
      rateLimitInfo = None\<rparr>"

definition BloombergConnector_health :: "int \<Rightarrow> ConnectorFields \<Rightarrow> ConnectorHealth" where
  "BloombergConnector_health now c =
     \<lparr>status = (if isConnected c then connected else disconnected),
      lastMessageTime = cn_lastMessageTime c,
      errorCount = cn_errorCount c,
      uptime = (if startTime c \<noteq> 0 then now - startTime c else 0),
      rateLimitInfo = None\<rparr>"

definition AccuWeatherConnector_health :: "int \<Rightarrow> AccuWeatherFields \<Rightarrow> ConnectorHealth" where
  "AccuWeatherConnector_health now c =
     (let health = \<lparr>status = (if isConnected c then connected else disconnected),
                    lastMessageTime = cn_lastMessageTime c,
                    errorCount = cn_errorCount c,
                    uptime = (if startTime c \<noteq> 0 then now - startTime c else 0),
                    rateLimitInfo = None\<rparr>
      in if rateLimitRemaining c \<ge> 0
         then health\<lparr>rateLimitInfo :=
                Some \<lparr>remaining = rateLimitRemaining c,
                      reset = (case rateLimitReset c of
                                 None \<Rightarrow> ''unknown''
                               | Some r \<Rightarrow> if r = [] then ''unknown'' else r)\<rparr>\<rparr>
         else health)"

text \<open>
  Claim C10. For every connector, every state of its fields, every clock reading and
  every number \<open>n\<close> of counted errors, the status of the health snapshot is
  \<open>connected\<close> or \<open>disconnected\<close>, never \<open>error\<close>.
\<close>

theorem C10_health_status_never_error:
  "(status (BinanceConnector_health now (c1\<lparr>cn_errorCount := n\<rparr>)) = connected
      \<or> status (BinanceConnector_health now (c1\<lparr>cn_errorCount := n\<rparr>)) = disconnected)
   \<and> (status (PolygonConnector_health now (c2\<lparr>cn_errorCount := n\<rparr>)) = connected
      \<or> status (PolygonConnector_health now (c2\<lparr>cn_errorCount := n\<rparr>)) = disconnected)
   \<and> (status (BloombergConnector_health now (c3\<lparr>cn_errorCount := n\<rparr>)) = connected
      \<or> status (BloombergConnector_health now (c3\<lparr>cn_errorCount := n\<rparr>)) = disconnected)
   \<and> (status (AccuWeatherConnector_health now (c4\<lparr>cn_errorCount := n\<rparr>)) = connected
      \<or> status (AccuWeatherConnector_health now (c4\<lparr>cn_errorCount := n\<rparr>)) = disconnected)
   \<and> status (BinanceConnector_health now (c1\<lparr>cn_errorCount := n\<rparr>)) \<noteq> error
   \<and> status (PolygonConnector_health now (c2\<lparr>cn_errorCount := n\<rparr>)) \<noteq> error
   \<and> status (BloombergConnector_health now (c3\<lparr>cn_errorCount := n\<rparr>)) \<noteq> error
   \<and> status (AccuWeatherConnector_health now (c4\<lparr>cn_errorCount := n\<rparr>)) \<noteq> error"
  by (simp add: BinanceConnector_health_def PolygonConnector_health_def
      BloombergConnector_health_def AccuWeatherConnector_health_def Let_def)

section \<open>OHLC aggregator (\<^verbatim>\<open>core/candleBuilder.ts\<close>)\<close>

text \<open>
  \<^verbatim>\<open>candlesInProgress\<close> is a \<^verbatim>\<open>Map\<close> from the key \<^verbatim>\<open>`${tf.label}_${windowStart}`\<close> to
  the candle in progress, and \<^verbatim>\<open>buffers\<close> a \<^verbatim>\<open>Map\<close> from the label to the buffer; both are
  association lists in insertion order (\<^const>\<open>AList.update\<close> overwrites in place or appends,
  as \<^verbatim>\<open>Map.set\<close> does). The listeners registered with \<^verbatim>\<open>onCandleComplete\<close> are called
  after the push and cannot change the builder's private state; they are left out.
\<close>

record CandleInProgress =
  p_open :: real
  p_high :: real
  p_low :: real
  p_close :: real
  p_volume :: real
  p_startTime :: int
  p_lastUpdate :: int

record CandleBuilder =
  buffers :: "(string \<times> Candle Buffer) list"
  candlesInProgress :: "(string \<times> CandleInProgress) list"
  timeframes :: "TimeframeConfig list"
  cb_symbol :: string

definition new_CandleBuilder :: "string \<Rightarrow> TimeframeConfig list \<Rightarrow> CandleBuilder" where
  "new_CandleBuilder sy tfs =
     \<lparr>buffers = fold (\<lambda>tf bs. AList.update (label tf) (new_Buffer (bufferSize tf) (label tf)) bs)
                  tfs [],
      candlesInProgress = [],
      timeframes = tfs,
      cb_symbol = sy\<rparr>"

text \<open>\<^verbatim>\<open>getWindowStart\<close>: \<^verbatim>\<open>Math.floor(timestamp / ms) * ms\<close> with \<^verbatim>\<open>ms = seconds * 1000\<close>.
  Integer division in HOL rounds down, as \<^verbatim>\<open>Math.floor\<close> does; the two agree for a
  non-zero \<open>seconds\<close> (the timeframe configuration has positive integral seconds).\<close>

definition getWindowStart :: "int \<Rightarrow> int \<Rightarrow> int" where
  "getWindowStart timestamp secs = (let ms = secs * 1000 in (timestamp div ms) * ms)"

text \<open>The key \<^verbatim>\<open>`${tf.label}_${windowStart}`\<close>.\<close>

definition candle_key :: "string \<Rightarrow> int \<Rightarrow> string" where
  "candle_key l windowStart = l @ ''_'' @ Number_toString windowStart"

text \<open>\<^verbatim>\<open>finalizeCandle\<close>: convert to a \<^verbatim>\<open>Candle\<close> and push it into the buffer stored under
  \<^verbatim>\<open>tf.label\<close>. The buffer exists for every configured timeframe; where it does not,
  the source's \<^verbatim>\<open>buffers.get(tf.label)!\<close> fails, and the model leaves the state as it is.\<close>

definition finalizeCandle :: "CandleInProgress \<Rightarrow> TimeframeConfig \<Rightarrow> CandleBuilder \<Rightarrow> CandleBuilder" where
  "finalizeCandle candle tf b =
     (let finalCandle = \<lparr>datetime = p_startTime candle,
                         c_open = p_open candle,
                         c_high = p_high candle,
                         c_low = p_low candle,
                         c_close = p_close candle,
                         c_volume = p_volume candle\<rparr>
      in case map_of (buffers b) (label tf) of
           None \<Rightarrow> b
         | Some buffer \<Rightarrow>
             b\<lparr>buffers := AList.update (label tf) (push finalCandle buffer) (buffers b)\<rparr>)"

text \<open>The body of the two eviction loops: look the key up, finalize its candle into the
  buffer of \<open>tf\<close>, delete the key. The loops take their keys from the map itself, so
  \<^verbatim>\<open>candlesInProgress.get(oldKey)!\<close> finds a candle; for a key that is not in the map the
  model leaves the state as it is.\<close>

definition finalizeKey :: "TimeframeConfig \<Rightarrow> string \<Rightarrow> CandleBuilder \<Rightarrow> CandleBuilder" where
  "finalizeKey tf oldKey b =
     (case map_of (candlesInProgress b) oldKey of
        None \<Rightarrow> b
      | Some oldCandle \<Rightarrow>
          (let b' = finalizeCandle oldCandle tf b
           in b'\<lparr>candlesInProgress := AList.delete oldKey (candlesInProgress b')\<rparr>))"

definition updateCandle :: "NormalizedTick \<Rightarrow> int \<Rightarrow> TimeframeConfig \<Rightarrow> CandleBuilder \<Rightarrow> CandleBuilder" where
  "updateCandle tick timestamp tf b =
     (let windowStart = getWindowStart timestamp (seconds tf);
          key = candle_key (label tf) windowStart
      in case map_of (candlesInProgress b) key of
           None \<Rightarrow>
             (let existingKeys = filter (\<lambda>k. startsWith k (label tf))
                                        (map fst (candlesInProgress b));
                  b' = fold (finalizeKey tf) existingKeys b;
                  candle = \<lparr>p_open = price tick,
                            p_high = price tick,
                            p_low = price tick,
                            p_close = price tick,
                            p_volume = or_zero (tsize tick),
                            p_startTime = windowStart,
                            p_lastUpdate = timestamp\<rparr>
              in b'\<lparr>candlesInProgress := AList.update key candle (candlesInProgress b')\<rparr>)
         | Some candle \<Rightarrow>
             b\<lparr>candlesInProgress :=
                 AList.update key
                   (candle\<lparr>p_high := max (p_high candle) (price tick),
                           p_low := min (p_low candle) (price tick),
                           p_close := price tick,
                           p_volume := p_volume candle + or_zero (tsize tick),
                           p_lastUpdate := timestamp\<rparr>)
                   (candlesInProgress b)\<rparr>)"

definition addTick :: "NormalizedTick \<Rightarrow> CandleBuilder \<Rightarrow> CandleBuilder" where
  "addTick tick b =
     (if symbol tick \<noteq> cb_symbol b then b
      else fold (updateCandle tick (ts tick)) (timeframes b) b)"

definition forceFinalizeAll :: "CandleBuilder \<Rightarrow> CandleBuilder" where
  "forceFinalizeAll b =
     fold (\<lambda>tf b'. fold (finalizeKey tf)
                      (filter (\<lambda>k. startsWith k (label tf)) (map fst (candlesInProgress b')))
                      b')
          (timeframes b) b"


section \<open>Univariate aggregator (\<^verbatim>\<open>core/univariateBuilder.ts\<close>)\<close>

record DataPointInProgress =
  dp_value :: real
  dp_startTime :: int
  dp_lastUpdate :: int
  dp_count :: int
  dp_sum :: real

record UnivariateBuilder =
  u_buffers :: "(string \<times> UnivariateDataPoint Buffer) list"
  dataPointsInProgress :: "(string \<times> DataPointInProgress) list"
  u_timeframes :: "TimeframeConfig list"
  ub_symbol :: string

definition new_UnivariateBuilder :: "string \<Rightarrow> TimeframeConfig list \<Rightarrow> UnivariateBuilder" where
  "new_UnivariateBuilder sy tfs =
     \<lparr>u_buffers = fold (\<lambda>tf bs. AList.update (label tf) (new_Buffer (bufferSize tf) (label tf)) bs)
                    tfs [],
      dataPointsInProgress = [],
      u_timeframes = tfs,
      ub_symbol = sy\<rparr>"

definition finalizeDataPoint ::
  "DataPointInProgress \<Rightarrow> TimeframeConfig \<Rightarrow> UnivariateBuilder \<Rightarrow> UnivariateBuilder" where
  "finalizeDataPoint dataPoint tf b =
     (let finalDataPoint = \<lparr>u_datetime = dp_startTime dataPoint, u_value = dp_value dataPoint\<rparr>
      in case map_of (u_buffers b) (label tf) of
           None \<Rightarrow> b
         | Some buffer \<Rightarrow>
             b\<lparr>u_buffers := AList.update (label tf) (push finalDataPoint buffer) (u_buffers b)\<rparr>)"

definition u_finalizeKey :: "TimeframeConfig \<Rightarrow> string \<Rightarrow> UnivariateBuilder \<Rightarrow> UnivariateBuilder" where
  "u_finalizeKey tf oldKey b =
     (case map_of (dataPointsInProgress b) oldKey of
        None \<Rightarrow> b
      | Some oldDataPoint \<Rightarrow>
          (let b' = finalizeDataPoint oldDataPoint tf b
           in b'\<lparr>dataPointsInProgress := AList.delete oldKey (dataPointsInProgress b')\<rparr>))"

definition updateDataPoint ::
  "NormalizedTick \<Rightarrow> int \<Rightarrow> TimeframeConfig \<Rightarrow> UnivariateBuilder \<Rightarrow> UnivariateBuilder" where
  "updateDataPoint tick timestamp tf b =
     (let windowStart = getWindowStart timestamp (seconds tf);
          key = candle_key (label tf) windowStart
      in case map_of (dataPointsInProgress b) key of
           None \<Rightarrow>
             (let existingKeys = filter (\<lambda>k. startsWith k (label tf))
                                        (map fst (dataPointsInProgress b));
                  b' = fold (u_finalizeKey tf) existingKeys b;
                  dataPoint = \<lparr>dp_value = price tick,
                               dp_startTime = windowStart,
                               dp_lastUpdate = timestamp,
                               dp_count = 1,
                               dp_sum = price tick\<rparr>
              in b'\<lparr>dataPointsInProgress := AList.update key dataPoint (dataPointsInProgress b')\<rparr>)
         | Some dataPoint \<Rightarrow>
             b\<lparr>dataPointsInProgress :=
                 AList.update key
                   (dataPoint\<lparr>dp_value := price tick,
                              dp_lastUpdate := timestamp,
                              dp_count := dp_count dataPoint + 1,
                              dp_sum := dp_sum dataPoint + price tick\<rparr>)
                   (dataPointsInProgress b)\<rparr>)"

definition u_addTick :: "NormalizedTick \<Rightarrow> UnivariateBuilder \<Rightarrow> UnivariateBuilder" where
  "u_addTick tick b =
     (if symbol tick \<noteq> ub_symbol b then b
      else fold (updateDataPoint tick (ts tick)) (u_timeframes b) b)"

definition u_forceFinalizeAll :: "UnivariateBuilder \<Rightarrow> UnivariateBuilder" where
  "u_forceFinalizeAll b =
     fold (\<lambda>tf b'. fold (u_finalizeKey tf)
                      (filter (\<lambda>k. startsWith k (label tf)) (map fst (dataPointsInProgress b')))
                      b')
          (u_timeframes b) b"

text \<open>The body of the outer loop of \<^verbatim>\<open>forceFinalizeAll\<close>, for one timeframe.\<close>

definition evictTimeframe :: "TimeframeConfig \<Rightarrow> CandleBuilder \<Rightarrow> CandleBuilder" where
  "evictTimeframe tf b =
     fold (finalizeKey tf)
       (filter (\<lambda>k. startsWith k (label tf)) (map fst (candlesInProgress b))) b"

definition u_evictTimeframe :: "TimeframeConfig \<Rightarrow> UnivariateBuilder \<Rightarrow> UnivariateBuilder" where
  "u_evictTimeframe tf b =
     fold (u_finalizeKey tf)
       (filter (\<lambda>k. startsWith k (label tf)) (map fst (dataPointsInProgress b))) b"

section \<open>Calls on an aggregator and the properties of its records\<close>






section \<open>Results on the aggregators\<close>

subsection \<open>Association lists\<close>

lemma keys_delete: "map fst (AList.delete k al) = filter (\<lambda>x. x \<noteq> k) (map fst al)"
  by (induction al) auto

lemma set_update_subset: "set (AList.update k v al) \<subseteq> insert (k, v) (set al)"
  by (induction al) auto

lemma set_delete_subset: "set (AList.delete k al) \<subseteq> set al"
  by (induction al) auto

lemma filter_notin_filter:
  "filter (\<lambda>x. x \<notin> set (filter P xs)) xs = filter (\<lambda>x. \<not> P x) xs"
  by (rule filter_cong) auto

lemma push_items_subset: "set (items (push x buf)) \<subseteq> insert x (set (items buf))"
  by (auto simp: push_def Let_def dest: list.set_sel(2) [rotated])

subsection \<open>Finalizing twice\<close>


lemma finalizeCandle_fields [simp]:
  "candlesInProgress (finalizeCandle c tf b) = candlesInProgress b"
  "timeframes (finalizeCandle c tf b) = timeframes b"
  "cb_symbol (finalizeCandle c tf b) = cb_symbol b"
  by (simp_all add: finalizeCandle_def Let_def split: option.splits)

lemma finalizeKey_fields [simp]:
  "timeframes (finalizeKey tf k b) = timeframes b"
  "cb_symbol (finalizeKey tf k b) = cb_symbol b"
  by (simp_all add: finalizeKey_def Let_def split: option.splits)

lemma finalizeKey_keys:
  "map fst (candlesInProgress (finalizeKey tf k b))
     = filter (\<lambda>x. x \<noteq> k) (map fst (candlesInProgress b))"
proof (cases "map_of (candlesInProgress b) k")
  case None
  then have "k \<notin> set (map fst (candlesInProgress b))"
    by (simp add: map_of_eq_None_iff)
  then have "filter (\<lambda>x. x \<noteq> k) (map fst (candlesInProgress b)) = map fst (candlesInProgress b)"
    by (intro filter_True) auto
  with None show ?thesis by (simp add: finalizeKey_def)
next
  case (Some c)
  then show ?thesis by (simp add: finalizeKey_def Let_def keys_delete)
qed

lemma fold_finalizeKey_fields [simp]:
  "timeframes (fold (finalizeKey tf) ks b) = timeframes b"
  "cb_symbol (fold (finalizeKey tf) ks b) = cb_symbol b"
  by (induction ks arbitrary: b) simp_all

lemma fold_finalizeKey_keys:
  "map fst (candlesInProgress (fold (finalizeKey tf) ks b))
     = filter (\<lambda>x. x \<notin> set ks) (map fst (candlesInProgress b))"
  by (induction ks arbitrary: b) (simp_all add: finalizeKey_keys conj_commute)

lemma forceFinalizeAll_evict: "forceFinalizeAll b = fold evictTimeframe (timeframes b) b"
  by (simp add: forceFinalizeAll_def evictTimeframe_def [abs_def])

lemma evictTimeframe_fields [simp]:
  "timeframes (evictTimeframe tf b) = timeframes b"
  "cb_symbol (evictTimeframe tf b) = cb_symbol b"
  by (simp_all add: evictTimeframe_def)

lemma evictTimeframe_keys:
  "map fst (candlesInProgress (evictTimeframe tf b))
     = filter (\<lambda>k. \<not> startsWith k (label tf)) (map fst (candlesInProgress b))"
  by (simp only: evictTimeframe_def fold_finalizeKey_keys filter_notin_filter)

lemma fold_evict_fields [simp]:
  "timeframes (fold evictTimeframe tfs b) = timeframes b"
  "cb_symbol (fold evictTimeframe tfs b) = cb_symbol b"
  by (induction tfs arbitrary: b) simp_all

lemma fold_evict_keys:
  "map fst (candlesInProgress (fold evictTimeframe tfs b))
     = filter (\<lambda>k. \<forall>tf\<in>set tfs. \<not> startsWith k (label tf)) (map fst (candlesInProgress b))"
  by (induction tfs arbitrary: b) (simp_all add: evictTimeframe_keys conj_commute)

lemma evictTimeframe_idle:
  "\<forall>k\<in>set (map fst (candlesInProgress b)). \<not> startsWith k (label tf) \<Longrightarrow> evictTimeframe tf b = b"
proof -
  assume "\<forall>k\<in>set (map fst (candlesInProgress b)). \<not> startsWith k (label tf)"
  then have "filter (\<lambda>k. startsWith k (label tf)) (map fst (candlesInProgress b)) = []"
    by (intro filter_False) auto
  then show ?thesis by (simp add: evictTimeframe_def)
qed

lemma fold_evict_idle:
  "\<forall>tf\<in>set tfs. \<forall>k\<in>set (map fst (candlesInProgress b)). \<not> startsWith k (label tf)
   \<Longrightarrow> fold evictTimeframe tfs b = b"
  by (induction tfs arbitrary: b) (simp_all add: evictTimeframe_idle)

lemma forceFinalizeAll_idem: "forceFinalizeAll (forceFinalizeAll b) = forceFinalizeAll b"
proof -
  let ?b1 = "fold evictTimeframe (timeframes b) b"
  have "\<forall>tf\<in>set (timeframes b). \<forall>k\<in>set (map fst (candlesInProgress ?b1)). \<not> startsWith k (label tf)"
    by (simp add: fold_evict_keys)
  then have "fold evictTimeframe (timeframes b) ?b1 = ?b1"
    by (rule fold_evict_idle)
  then show ?thesis by (simp add: forceFinalizeAll_evict)
qed

lemma u_finalizeDataPoint_fields [simp]:
  "dataPointsInProgress (finalizeDataPoint c tf b) = dataPointsInProgress b"
  "u_timeframes (finalizeDataPoint c tf b) = u_timeframes b"
  "ub_symbol (finalizeDataPoint c tf b) = ub_symbol b"
  by (simp_all add: finalizeDataPoint_def Let_def split: option.splits)

lemma u_finalizeKey_fields [simp]:
  "u_timeframes (u_finalizeKey tf k b) = u_timeframes b"
  "ub_symbol (u_finalizeKey tf k b) = ub_symbol b"
  by (simp_all add: u_finalizeKey_def Let_def split: option.splits)

lemma u_finalizeKey_keys:
  "map fst (dataPointsInProgress (u_finalizeKey tf k b))
     = filter (\<lambda>x. x \<noteq> k) (map fst (dataPointsInProgress b))"
proof (cases "map_of (dataPointsInProgress b) k")
  case None
  then have "k \<notin> set (map fst (dataPointsInProgress b))"
    by (simp add: map_of_eq_None_iff)
  then have "filter (\<lambda>x. x \<noteq> k) (map fst (dataPointsInProgress b)) = map fst (dataPointsInProgress b)"
    by (intro filter_True) auto
  with None show ?thesis by (simp add: u_finalizeKey_def)
next
  case (Some c)
  then show ?thesis by (simp add: u_finalizeKey_def Let_def keys_delete)
qed

lemma u_fold_u_finalizeKey_fields [simp]:
  "u_timeframes (fold (u_finalizeKey tf) ks b) = u_timeframes b"
  "ub_symbol (fold (u_finalizeKey tf) ks b) = ub_symbol b"
  by (induction ks arbitrary: b) simp_all

lemma u_fold_u_finalizeKey_keys:
  "map fst (dataPointsInProgress (fold (u_finalizeKey tf) ks b))
     = filter (\<lambda>x. x \<notin> set ks) (map fst (dataPointsInProgress b))"
  by (induction ks arbitrary: b) (simp_all add: u_finalizeKey_keys conj_commute)

lemma u_forceFinalizeAll_evict: "u_forceFinalizeAll b = fold u_evictTimeframe (u_timeframes b) b"
  by (simp add: u_forceFinalizeAll_def u_evictTimeframe_def [abs_def])

lemma u_evictTimeframe_fields [simp]:
  "u_timeframes (u_evictTimeframe tf b) = u_timeframes b"
  "ub_symbol (u_evictTimeframe tf b) = ub_symbol b"
  by (simp_all add: u_evictTimeframe_def)

lemma u_evictTimeframe_keys:
  "map fst (dataPointsInProgress (u_evictTimeframe tf b))
     = filter (\<lambda>k. \<not> startsWith k (label tf)) (map fst (dataPointsInProgress b))"
  by (simp only: u_evictTimeframe_def u_fold_u_finalizeKey_keys filter_notin_filter)

lemma u_fold_evict_fields [simp]:
  "u_timeframes (fold u_evictTimeframe tfs b) = u_timeframes b"
  "ub_symbol (fold u_evictTimeframe tfs b) = ub_symbol b"
  by (induction tfs arbitrary: b) simp_all

lemma u_fold_evict_keys:
  "map fst (dataPointsInProgress (fold u_evictTimeframe tfs b))
     = filter (\<lambda>k. \<forall>tf\<in>set tfs. \<not> startsWith k (label tf)) (map fst (dataPointsInProgress b))"
  by (induction tfs arbitrary: b) (simp_all add: u_evictTimeframe_keys conj_commute)

lemma u_evictTimeframe_idle:
  "\<forall>k\<in>set (map fst (dataPointsInProgress b)). \<not> startsWith k (label tf) \<Longrightarrow> u_evictTimeframe tf b = b"
proof -
  assume "\<forall>k\<in>set (map fst (dataPointsInProgress b)). \<not> startsWith k (label tf)"
  then have "filter (\<lambda>k. startsWith k (label tf)) (map fst (dataPointsInProgress b)) = []"
    by (intro filter_False) auto
  then show ?thesis by (simp add: u_evictTimeframe_def)
qed

lemma u_fold_evict_idle:
  "\<forall>tf\<in>set tfs. \<forall>k\<in>set (map fst (dataPointsInProgress b)). \<not> startsWith k (label tf)
   \<Longrightarrow> fold u_evictTimeframe tfs b = b"
  by (induction tfs arbitrary: b) (simp_all add: u_evictTimeframe_idle)

lemma u_forceFinalizeAll_idem: "u_forceFinalizeAll (u_forceFinalizeAll b) = u_forceFinalizeAll b"
proof -
  let ?b1 = "fold u_evictTimeframe (u_timeframes b) b"
  have "\<forall>tf\<in>set (u_timeframes b). \<forall>k\<in>set (map fst (dataPointsInProgress ?b1)). \<not> startsWith k (label tf)"
    by (simp add: u_fold_evict_keys)
  then have "fold u_evictTimeframe (u_timeframes b) ?b1 = ?b1"
    by (rule u_fold_evict_idle)
  then show ?thesis by (simp add: u_forceFinalizeAll_evict)
qed

text \<open>
  Claim C8. For every state of an OHLC aggregator and of a univariate aggregator, a second
  \<^verbatim>\<open>forceFinalizeAll\<close> right after a first one returns the state of the first: no
  buffer changes, so no candle is finalized and no record is pushed twice.
\<close>

theorem C8_forceFinalizeAll_twice:
  "forceFinalizeAll (forceFinalizeAll b) = forceFinalizeAll b
   \<and> buffers (forceFinalizeAll (forceFinalizeAll b)) = buffers (forceFinalizeAll b)
   \<and> u_forceFinalizeAll (u_forceFinalizeAll ub) = u_forceFinalizeAll ub
   \<and> u_buffers (u_forceFinalizeAll (u_forceFinalizeAll ub)) = u_buffers (u_forceFinalizeAll ub)"
  by (simp add: forceFinalizeAll_idem u_forceFinalizeAll_idem)

subsection \<open>Order of open, high, low and close\<close>










lemma new_buffers_empty:
  "\<forall>lb\<in>set acc. items (snd lb) = [] \<Longrightarrow>
   \<forall>lb\<in>set (fold (\<lambda>tf bs. AList.update (label tf) (new_Buffer (bufferSize tf) (label tf)) bs)
                  tfs acc). items (snd lb) = []"
proof (induction tfs arbitrary: acc)
  case Nil
  then show ?case by simp
next
  case (Cons tf tfs)
  have "\<forall>lb\<in>set (AList.update (label tf) (new_Buffer (bufferSize tf) (label tf)) acc).
          items (snd lb) = []"
    using Cons.prems set_update_subset [of "label tf" "new_Buffer (bufferSize tf) (label tf)" acc]
    by (auto simp: new_Buffer_def)
  then show ?case using Cons.IH by simp
qed





abbreviation (input) trade :: "int \<Rightarrow> real \<Rightarrow> real \<Rightarrow> NormalizedTick" where
  "trade t p q \<equiv> \<lparr>ts = t, price = p, tsize = Some q, symbol = ''AAPL'', exchange = ''polygon''\<rparr>"

lemmas builder_eval =
  addTick_def updateCandle_def getWindowStart_def startsWith_def finalizeKey_def
  finalizeCandle_def push_def new_Buffer_def new_CandleBuilder_def or_zero_def Let_def




section \<open>Polling loop and polling connector (\<^verbatim>\<open>src/unnamed/part_003\<close>, \<^verbatim>\<open>src/unnamed/part_005\<close>)\<close>

text \<open>
  \<^verbatim>\<open>PollingLoop\<close>'s constructor merges the defaults \<^verbatim>\<open>{maxRetries: 3, retryDelayMs: 5000}\<close>
  with the configuration it is given. A polling tick is one run of \<^verbatim>\<open>poll()\<close> on a running
  loop. The model records what the tick does to the timers as a list of events:
  \<open>Attempt n\<close> for the \<open>n\<close>-th call of the poll function, \<open>Sleep ms\<close> for
  \<^verbatim>\<open>await this.sleep(ms)\<close> and \<open>SetTimeout ms\<close> for \<^verbatim>\<open>setTimeout(() => this.poll(), ms)\<close>.
  The environment \<open>env\<close> gives the HTTP response that the \<open>n\<close>-th attempt receives.
  \<^verbatim>\<open>pollWithRetry\<close> is the \<^verbatim>\<open>for\<close> loop over \<open>attempt\<close>; it returns the events, the error it
  rejects with (\<^term>\<open>None\<close> when it resolves) and the state.
\<close>

record PollingConfig =
  intervalMs :: int
  maxRetries :: "int option"
  retryDelayMs :: "int option"

record PollingLoopConfig =
  pl_intervalMs :: int
  pl_maxRetries :: int
  pl_retryDelayMs :: int

definition new_PollingLoop :: "PollingConfig \<Rightarrow> PollingLoopConfig" where
  "new_PollingLoop config =
     \<lparr>pl_intervalMs = intervalMs config,
      pl_maxRetries = (case maxRetries config of None \<Rightarrow> 3 | Some m \<Rightarrow> m),
      pl_retryDelayMs = (case retryDelayMs config of None \<Rightarrow> 5000 | Some d \<Rightarrow> d)\<rparr>"

datatype loop_event = Attempt nat | Sleep int | SetTimeout int

function pollWithRetry_from ::
  "PollingLoopConfig \<Rightarrow> ('e \<Rightarrow> 's \<Rightarrow> (js_error + unit) \<times> 's) \<Rightarrow> (nat \<Rightarrow> 'e) \<Rightarrow> nat
     \<Rightarrow> js_error option \<Rightarrow> 's \<Rightarrow> loop_event list \<times> js_error option \<times> 's" where
  "pollWithRetry_from cfg pollFunction env attempt lastError s =
     (if int attempt < pl_maxRetries cfg then
        (case pollFunction (env attempt) s of
           (Inr u, s') \<Rightarrow> ([Attempt attempt], None, s')
         | (Inl err, s') \<Rightarrow>
             (case pollWithRetry_from cfg pollFunction env (Suc attempt) (Some err) s' of
                (evs, res) \<Rightarrow>
                  (Attempt attempt
                     # (if int attempt < pl_maxRetries cfg - 1 then [Sleep (pl_retryDelayMs cfg)]
                        else [])
                     @ evs, res)))
      else ([], lastError, s))"
  by pat_completeness auto
termination
  by (relation "measure (\<lambda>(cfg, f, env, attempt, e, s). nat (pl_maxRetries cfg - int attempt))") auto

declare pollWithRetry_from.simps [simp del]

definition pollWithRetry ::
  "PollingLoopConfig \<Rightarrow> ('e \<Rightarrow> 's \<Rightarrow> (js_error + unit) \<times> 's) \<Rightarrow> (nat \<Rightarrow> 'e) \<Rightarrow> 's
     \<Rightarrow> loop_event list \<times> js_error option \<times> 's" where
  "pollWithRetry cfg pollFunction env s = pollWithRetry_from cfg pollFunction env 0 None s"

definition PollingLoop_poll ::
  "PollingLoopConfig \<Rightarrow> ('e \<Rightarrow> 's \<Rightarrow> (js_error + unit) \<times> 's) \<Rightarrow> (nat \<Rightarrow> 'e) \<Rightarrow> 's
     \<Rightarrow> loop_event list \<times> 's" where
  "PollingLoop_poll cfg pollFunction env s =
     (case pollWithRetry cfg pollFunction env s of
        (evs, res, s') \<Rightarrow> (evs @ [SetTimeout (pl_intervalMs cfg)], s'))"

text \<open>The polling connector. \<open>http_json\<close> is the parsed body when it is an array, and
  \<^verbatim>\<open>parseInt\<close> is a parameter. The message of the error for a non-2xx status is
  \<^verbatim>\<open>`HTTP ${response.status}: ${response.statusText}`\<close>, modelled without the status text.\<close>

record HttpResponse =
  http_status :: int
  http_headers :: "(string \<times> string) list"
  http_json :: "AccuWeatherCurrentConditions list option"

record AccuWeatherConnector = AccuWeatherFields +
  lastFetchedData :: "AccuWeatherCurrentConditions option"
  univariateBuilder :: UnivariateBuilder
  locationKey :: string

definition fetchCurrentConditions ::
  "(string \<Rightarrow> int) \<Rightarrow> HttpResponse \<Rightarrow> AccuWeatherConnector
     \<Rightarrow> (js_error + AccuWeatherCurrentConditions) \<times> AccuWeatherConnector" where
  "fetchCurrentConditions parseInt response c =
     (let c1 = (case map_of (http_headers response) ''RateLimit-Remaining'' of
                  None \<Rightarrow> c
                | Some v \<Rightarrow> c\<lparr>rateLimitRemaining := parseInt (if v = [] then ''-1'' else v)\<rparr>);
          c2 = (case map_of (http_headers response) ''RateLimit-Reset'' of
                  None \<Rightarrow> c1
                | Some v \<Rightarrow> c1\<lparr>rateLimitReset := Some v\<rparr>)
      in if http_status response = 429 then (Inl (Error ''Rate limit exceeded''), c2)
         else if \<not> (200 \<le> http_status response \<and> http_status response \<le> 299)
         then (Inl (Error (''HTTP '' @ Number_toString (http_status response))), c2)
         else (case http_json response of
                 None \<Rightarrow> (Inl (Error ''Invalid response format''), c2)
               | Some [] \<Rightarrow> (Inl (Error ''Invalid response format''), c2)
               | Some (d # ds) \<Rightarrow> (Inr d, c2)))"

definition onMessage ::
  "(string \<Rightarrow> int option) \<Rightarrow> int \<Rightarrow> AccuWeatherCurrentConditions \<Rightarrow> AccuWeatherConnector
     \<Rightarrow> AccuWeatherConnector" where
  "onMessage parseDate now raw c =
     (let c1 = c\<lparr>lastFetchedData := Some raw\<rparr>
      in case AccuWeatherNormalizer_normalize parseDate now raw (locationKey c1) of
           Inl err \<Rightarrow> c1\<lparr>cn_errorCount := cn_errorCount c1 + 1\<rparr>
         | Inr None \<Rightarrow> c1
         | Inr (Some tick) \<Rightarrow>
             c1\<lparr>cn_lastMessageTime := Some (ts tick),
                univariateBuilder := u_addTick tick (univariateBuilder c1)\<rparr>)"

definition AccuWeatherConnector_poll ::
  "(string \<Rightarrow> int) \<Rightarrow> (string \<Rightarrow> int option) \<Rightarrow> int \<Rightarrow> HttpResponse \<Rightarrow> AccuWeatherConnector
     \<Rightarrow> (js_error + unit) \<times> AccuWeatherConnector" where
  "AccuWeatherConnector_poll parseInt parseDate now response c =
     (case fetchCurrentConditions parseInt response c of
        (Inl err, c') \<Rightarrow> (Inl err, c'\<lparr>cn_errorCount := cn_errorCount c' + 1\<rparr>)
      | (Inr d, c') \<Rightarrow> (Inr (), onMessage parseDate now d c'))"

section \<open>Results on the polling loop\<close>

lemma fetch_429:
  "http_status r = 429 \<Longrightarrow> fst (fetchCurrentConditions pI r c) = Inl (Error ''Rate limit exceeded'')"
  by (simp add: fetchCurrentConditions_def Let_def)

lemma poll_429:
  "http_status r = 429 \<Longrightarrow>
   fst (AccuWeatherConnector_poll pI pD now r c) = Inl (Error ''Rate limit exceeded'')"
  using fetch_429 [of r pI c]
  by (cases "fetchCurrentConditions pI r c") (auto simp: AccuWeatherConnector_poll_def)

lemma pollWithRetry_from_failed:
  assumes "fst (f (env n) s) = Inl err" "int n < pl_maxRetries cfg"
  shows "\<exists>evs. fst (pollWithRetry_from cfg f env n le s) =
           Attempt n # (if int n < pl_maxRetries cfg - 1 then [Sleep (pl_retryDelayMs cfg)] else [])
             @ evs
         \<and> (int n < pl_maxRetries cfg - 1 \<longrightarrow> (\<exists>evs'. evs = Attempt (Suc n) # evs'))
         \<and> (\<not> int n < pl_maxRetries cfg - 1 \<longrightarrow> evs = [])"
proof -
  obtain s' where f: "f (env n) s = (Inl err, s')"
    using assms(1) by (cases "f (env n) s") auto
  obtain evs r where rec: "pollWithRetry_from cfg f env (Suc n) (Some err) s' = (evs, r)"
    by (cases "pollWithRetry_from cfg f env (Suc n) (Some err) s'") auto
  have 1: "fst (pollWithRetry_from cfg f env n le s) =
           Attempt n # (if int n < pl_maxRetries cfg - 1 then [Sleep (pl_retryDelayMs cfg)] else [])
             @ evs"
    using assms(2) f rec by (subst pollWithRetry_from.simps) simp
  have 2: "int n < pl_maxRetries cfg - 1 \<Longrightarrow> \<exists>evs'. evs = Attempt (Suc n) # evs'"
    using rec by (subst (asm) pollWithRetry_from.simps) (auto split: prod.splits sum.splits)
  have 3: "\<not> int n < pl_maxRetries cfg - 1 \<Longrightarrow> evs = []"
    using rec by (subst (asm) pollWithRetry_from.simps) (auto split: prod.splits sum.splits)
  from 1 2 3 show ?thesis by blast
qed


lemma poll_ok:
  "http_status r = 200 \<Longrightarrow> http_json r = Some (d # ds) \<Longrightarrow>
   fst (AccuWeatherConnector_poll pI pD now r c) = Inr ()"
  by (simp add: AccuWeatherConnector_poll_def fetchCurrentConditions_def Let_def)

lemma pollWithRetry_from_ok:
  "fst (f (env n) s) = Inr u \<Longrightarrow> int n < pl_maxRetries cfg \<Longrightarrow>
   fst (pollWithRetry_from cfg f env n le s) = [Attempt n]"
  by (subst pollWithRetry_from.simps) (auto split: prod.splits sum.splits)

lemma pollWithRetry_from_fail_then_ok:
  assumes "f (env n) s = (Inl err, s')" "fst (f (env (Suc n)) s') = Inr u"
    and "int n < pl_maxRetries cfg - 1"
  shows "fst (pollWithRetry_from cfg f env n le s)
           = [Attempt n, Sleep (pl_retryDelayMs cfg), Attempt (Suc n)]"
proof -
  have "fst (pollWithRetry_from cfg f env (Suc n) (Some err) s') = [Attempt (Suc n)]"
    using assms(2,3) by (intro pollWithRetry_from_ok) auto
  then show ?thesis
    using assms(1,3)
    by (subst pollWithRetry_from.simps) (auto split: prod.splits)
qed

lemma PollingLoop_poll_events:
  "fst (PollingLoop_poll cfg f env s)
     = fst (pollWithRetry_from cfg f env 0 None s) @ [SetTimeout (pl_intervalMs cfg)]"
  by (simp add: PollingLoop_poll_def pollWithRetry_def split: prod.splits)

abbreviation (input) response_429 :: HttpResponse where
  "response_429 \<equiv> \<lparr>http_status = 429, http_headers = [(''Retry-After'', ''10'')], http_json = None\<rparr>"

abbreviation (input) response_200 :: HttpResponse where
  "response_200 \<equiv>
     \<lparr>http_status = 200, http_headers = [],
      http_json = Some [\<lparr>LocalObservationDateTime = None, EpochTime = Some 7,
                         Temperature_Metric_Value = Some 21, RelativeHumidity = None\<rparr>]\<rparr>"

abbreviation (input) weather_connector :: AccuWeatherConnector where
  "weather_connector \<equiv>
     \<lparr>startTime = 1, cn_errorCount = 0, cn_lastMessageTime = None, isConnected = True,
      rateLimitRemaining = - 1, rateLimitReset = None, lastFetchedData = None,
      univariateBuilder = new_UnivariateBuilder ''328328'' [], locationKey = ''328328''\<rparr>"

abbreviation (input) default_loop :: PollingLoopConfig where
  "default_loop \<equiv> new_PollingLoop \<lparr>intervalMs = 300000, maxRetries = None, retryDelayMs = None\<rparr>"

lemma default_loop_eval:
  "default_loop = \<lparr>pl_intervalMs = 300000, pl_maxRetries = 3, pl_retryDelayMs = 5000\<rparr>"
  by (simp add: new_PollingLoop_def)

lemma rate_limited_tick:
  "fst (pollWithRetry_from default_loop (AccuWeatherConnector_poll (\<lambda>x. 0) (\<lambda>x. None) 0)
          (\<lambda>n. if n = 0 then response_429 else response_200) 0 None weather_connector)
     = [Attempt 0, Sleep 5000, Attempt 1]"
proof -
  let ?f = "AccuWeatherConnector_poll (\<lambda>x. 0) (\<lambda>x. None) 0"
  let ?env = "\<lambda>n::nat. if n = 0 then response_429 else response_200"
  obtain s' where 1: "?f (?env 0) weather_connector = (Inl (Error ''Rate limit exceeded''), s')"
    using poll_429 [of "?env 0" "\<lambda>x. 0" "\<lambda>x. None" 0 weather_connector]
    by (cases "?f (?env 0) weather_connector") auto
  have 2: "fst (?f (?env (Suc 0)) s') = Inr ()"
    by (rule poll_ok) simp_all
  show ?thesis
    using pollWithRetry_from_fail_then_ok
      [where f = ?f and env = ?env and n = 0 and s = weather_connector and cfg = default_loop
         and le = None, OF 1 2]
    by (simp add: default_loop_eval)
qed

text \<open>
  Claim C7, as stated: after a 429 response with \<^verbatim>\<open>Retry-After: 10\<close> the next attempt is
  scheduled 10 seconds later. With the loop the connector builds (defaults: three attempts,
  5000 ms between them, the next tick after the polling interval), a 429 with
  \<^verbatim>\<open>Retry-After: 10\<close> followed by a 200 gives a sleep of 5000 ms before the second attempt,
  and no timer of 10000 ms is set at all.
\<close>

theorem C7_retry_after_ignored_counterexample:
  "fst (PollingLoop_poll default_loop (AccuWeatherConnector_poll (\<lambda>x. 0) (\<lambda>x. None) 0)
          (\<lambda>n. if n = 0 then response_429 else response_200) weather_connector)
     = [Attempt 0, Sleep 5000, Attempt 1, SetTimeout 300000]
   \<and> Sleep 10000 \<notin> set (fst (PollingLoop_poll default_loop
          (AccuWeatherConnector_poll (\<lambda>x. 0) (\<lambda>x. None) 0)
          (\<lambda>n. if n = 0 then response_429 else response_200) weather_connector))
   \<and> SetTimeout 10000 \<notin> set (fst (PollingLoop_poll default_loop
          (AccuWeatherConnector_poll (\<lambda>x. 0) (\<lambda>x. None) 0)
          (\<lambda>n. if n = 0 then response_429 else response_200) weather_connector))"
  using rate_limited_tick by (simp add: PollingLoop_poll_events default_loop_eval)

text \<open>
  Claim C7, amended. When the fetch of an attempt of a polling tick returns status 429,
  with any headers, the attempt fails like any other failed poll: if the loop allows a
  further attempt, that attempt follows after the configured retry delay (5 s by
  default); if it does not, the loop ends with this attempt. The tick then schedules the
  next poll at the polling interval. The \<^verbatim>\<open>Retry-After\<close> header is not read.
\<close>

theorem C7_rate_limited_retry_delay:
  assumes "http_status (env n) = 429" and "int n < pl_maxRetries cfg"
  shows "(int n < pl_maxRetries cfg - 1 \<longrightarrow>
            take 3 (fst (pollWithRetry_from cfg (AccuWeatherConnector_poll pI pD now) env n
                           lastError c))
              = [Attempt n, Sleep (pl_retryDelayMs cfg), Attempt (Suc n)])
         \<and> (\<not> int n < pl_maxRetries cfg - 1 \<longrightarrow>
            fst (pollWithRetry_from cfg (AccuWeatherConnector_poll pI pD now) env n lastError c)
              = [Attempt n])
         \<and> fst (PollingLoop_poll cfg (AccuWeatherConnector_poll pI pD now) env c0)
             = fst (pollWithRetry_from cfg (AccuWeatherConnector_poll pI pD now) env 0 None c0)
                 @ [SetTimeout (pl_intervalMs cfg)]"
proof -
  let ?f = "AccuWeatherConnector_poll pI pD now"
  have fail: "fst (?f (env n) c) = Inl (Error ''Rate limit exceeded'')"
    using assms(1) by (rule poll_429)
  obtain evs where evs:
    "fst (pollWithRetry_from cfg ?f env n lastError c) =
       Attempt n # (if int n < pl_maxRetries cfg - 1 then [Sleep (pl_retryDelayMs cfg)] else [])
         @ evs"
    "int n < pl_maxRetries cfg - 1 \<longrightarrow> (\<exists>evs'. evs = Attempt (Suc n) # evs')"
    "\<not> int n < pl_maxRetries cfg - 1 \<longrightarrow> evs = []"
    using pollWithRetry_from_failed
      [where f = ?f and env = env and n = n and s = c and cfg = cfg and le = lastError,
        OF fail assms(2)]
    by blast
  show ?thesis
  proof (intro conjI impI)
    assume "int n < pl_maxRetries cfg - 1"
    then show "take 3 (fst (pollWithRetry_from cfg ?f env n lastError c))
                 = [Attempt n, Sleep (pl_retryDelayMs cfg), Attempt (Suc n)]"
      using evs by auto
  next
    assume "\<not> int n < pl_maxRetries cfg - 1"
    then show "fst (pollWithRetry_from cfg ?f env n lastError c) = [Attempt n]"
      using evs by auto
  next
    show "fst (PollingLoop_poll cfg ?f env c0)
            = fst (pollWithRetry_from cfg ?f env 0 None c0) @ [SetTimeout (pl_intervalMs cfg)]"
      by (rule PollingLoop_poll_events)
  qed
qed

text \<open>The first attempt of the default loop answered by a 429 and the second by a 200.\<close>

theorem C7_rate_limited_retry_delay_witness:
  "http_status response_429 = 429
   \<and> int 0 < pl_maxRetries default_loop - 1
   \<and> take 3 (fst (pollWithRetry_from default_loop
          (AccuWeatherConnector_poll (\<lambda>x. 0) (\<lambda>x. None) 0)
          (\<lambda>n. if n = 0 then response_429 else response_200) 0 None weather_connector))
     = [Attempt 0, Sleep 5000, Attempt 1]
   \<and> fst (PollingLoop_poll default_loop (AccuWeatherConnector_poll (\<lambda>x. 0) (\<lambda>x. None) 0)
          (\<lambda>n. if n = 0 then response_429 else response_200) weather_connector)
     = [Attempt 0, Sleep 5000, Attempt 1, SetTimeout 300000]"
  using C7_rate_limited_retry_delay
    [where env = "\<lambda>n. if n = 0 then response_429 else response_200" and n = 0
       and cfg = default_loop and pI = "\<lambda>x. 0" and pD = "\<lambda>x. None" and now = 0
       and c = weather_connector and ?c0.0 = weather_connector and lastError = None]
    rate_limited_tick
  by (simp add: default_loop_eval)

section \<open>Timeframes of one aggregator\<close>

text \<open>
  The eviction loops select the keys of a timeframe with \<^verbatim>\<open>k.startsWith(tf.label)\<close>.
  \<open>inProgressOf tf b\<close> is the part of the in-progress map that this test selects for
  \<open>tf\<close>. The test tells the configured timeframes apart when their labels are
  independent: pairwise different, without the separator \<^verbatim>\<open>_\<close> of the key, and none a
  prefix of another. The networks the repository documents (\<^verbatim>\<open>1s, 5s, 15s, 30s, 1m, 5m,
  15m, 1h\<close> and \<^verbatim>\<open>1m, 5m, 15m, 30m, 1h\<close>) are of this kind.
\<close>

definition labels_independent :: "TimeframeConfig list \<Rightarrow> bool" where
  "labels_independent tfs =
     (distinct (map label tfs)
      \<and> (\<forall>a\<in>set tfs. CHR ''_'' \<notin> set (label a))
      \<and> (\<forall>a\<in>set tfs. \<forall>b\<in>set tfs. prefix (label a) (label b) \<longrightarrow> label a = label b))"

definition inProgressOf :: "TimeframeConfig \<Rightarrow> CandleBuilder \<Rightarrow> (string \<times> CandleInProgress) list" where
  "inProgressOf tf b = filter (\<lambda>kc. startsWith (fst kc) (label tf)) (candlesInProgress b)"

definition as_candle :: "CandleInProgress \<Rightarrow> Candle" where
  "as_candle p = \<lparr>datetime = p_startTime p, c_open = p_open p, c_high = p_high p,
                  c_low = p_low p, c_close = p_close p, c_volume = p_volume p\<rparr>"

definition first_candle :: "NormalizedTick \<Rightarrow> int \<Rightarrow> int \<Rightarrow> CandleInProgress" where
  "first_candle tick timestamp windowStart =
     \<lparr>p_open = price tick, p_high = price tick, p_low = price tick, p_close = price tick,
      p_volume = or_zero (tsize tick), p_startTime = windowStart, p_lastUpdate = timestamp\<rparr>"

text \<open>
  The invariant of an aggregator that has only received ticks, for a reference instant
  \<open>T\<close>. For each configured timeframe the buffer exists, every record in it is aligned to
  the timeframe, and at most one candle is in progress, stored under the key of its own
  window. With \<open>ord\<close> set (ticks arrive with non-decreasing timestamps, the last at \<open>T\<close>),
  the records of the buffer moreover increase strictly and lie before the window in
  progress, which starts at or before \<open>T\<close>.
\<close>

definition tf_state_ok ::
  "bool \<Rightarrow> int \<Rightarrow> TimeframeConfig \<Rightarrow> (string \<times> CandleInProgress) list \<Rightarrow> Candle Buffer \<Rightarrow> bool" where
  "tf_state_ok ord T tf cs buf =
     ((\<forall>d\<in>set (items buf). (seconds tf * 1000) dvd datetime d)
      \<and> (cs = [] \<or> (\<exists>c. cs = [(candle_key (label tf) (p_startTime c), c)]
                        \<and> (seconds tf * 1000) dvd p_startTime c))
      \<and> (ord \<longrightarrow> sorted_wrt (<) (map datetime (items buf))
                \<and> (cs = [] \<longrightarrow> items buf = [])
                \<and> (\<forall>kc\<in>set cs. p_startTime (snd kc) \<le> T
                       \<and> (\<forall>d\<in>set (items buf). datetime d < p_startTime (snd kc)))))"

definition builder_inv :: "bool \<Rightarrow> int \<Rightarrow> TimeframeConfig list \<Rightarrow> CandleBuilder \<Rightarrow> bool" where
  "builder_inv ord T tfs b =
     (timeframes b = tfs
      \<and> distinct (map fst (candlesInProgress b))
      \<and> (\<forall>tf\<in>set tfs. \<exists>buf. map_of (buffers b) (label tf) = Some buf
                           \<and> tf_state_ok ord T tf (inProgressOf tf b) buf))"

section \<open>Results on the windows of an aggregator\<close>

lemma key_of_other_label:
  assumes "labels_independent tfs" "a \<in> set tfs" "b \<in> set tfs"
  shows "startsWith (candle_key (label b) w) (label a) \<longleftrightarrow> label a = label b"
proof
  assume "startsWith (candle_key (label b) w) (label a)"
  then have "prefix (label a) (label b @ (CHR ''_'' # Number_toString w))"
    by (simp add: startsWith_def candle_key_def)
  then consider "prefix (label a) (label b)"
    | us where "label a = label b @ us" "prefix us (CHR ''_'' # Number_toString w)"
    by (auto simp: prefix_append)
  then show "label a = label b"
  proof cases
    case 1
    then show ?thesis using assms by (auto simp: labels_independent_def)
  next
    case 2
    have "CHR ''_'' \<notin> set (label a)"
      using assms by (auto simp: labels_independent_def)
    with 2 show ?thesis by (cases us) (auto simp: prefix_Cons)
  qed
next
  assume "label a = label b"
  then show "startsWith (candle_key (label b) w) (label a)"
    by (simp add: startsWith_def candle_key_def)
qed

lemma label_inj:
  "labels_independent tfs \<Longrightarrow> a \<in> set tfs \<Longrightarrow> b \<in> set tfs \<Longrightarrow> label a = label b \<Longrightarrow> a = b"
  by (auto simp: labels_independent_def distinct_map dest: inj_onD)

lemma window_aligned: "(secs * 1000) dvd getWindowStart t secs"
  by (simp add: getWindowStart_def Let_def)

lemma window_le: "0 < secs \<Longrightarrow> getWindowStart t secs \<le> t"
proof -
  assume "0 < secs"
  then have "0 \<le> t mod (secs * 1000)" by simp
  moreover have "t div (secs * 1000) * (secs * 1000) = t - t mod (secs * 1000)"
    by (simp add: minus_mod_eq_div_mult)
  ultimately show ?thesis by (simp add: getWindowStart_def Let_def)
qed

lemma window_greatest:
  assumes "0 < secs" "(secs * 1000) dvd m" "m \<le> t"
  shows "m \<le> getWindowStart t secs"
proof -
  from assms(2) obtain q where m: "m = q * (secs * 1000)" by (auto simp: dvd_def mult.commute)
  have pos: "0 < secs * 1000" using assms(1) by simp
  have "q = m div (secs * 1000)" using m pos by simp
  also have "\<dots> \<le> t div (secs * 1000)" using assms(3) pos by (intro zdiv_mono1) auto
  finally have "q * (secs * 1000) \<le> t div (secs * 1000) * (secs * 1000)"
    using pos by (intro mult_right_mono) auto
  with m show ?thesis by (simp add: getWindowStart_def Let_def)
qed

lemma filter_delete:
  "filter Q (AList.delete k al) = filter (\<lambda>kc. fst kc \<noteq> k) (filter Q al)"
  by (induction al) auto

lemma update_present:
  "distinct (map fst al) \<Longrightarrow> (k, c) \<in> set al \<Longrightarrow>
   AList.update k v al = map (\<lambda>kc. if fst kc = k then (k, v) else kc) al"
proof (induction al)
  case Nil
  then show ?case by simp
next
  case (Cons x al)
  show ?case
  proof (cases "fst x = k")
    case True
    then have "k \<notin> fst ` set al" using Cons.prems(1) by auto
    then have "map (\<lambda>kc. if fst kc = k then (k, v) else kc) al = al"
      by (intro map_idI) auto
    with True show ?thesis by (cases x) simp
  next
    case False
    with Cons show ?thesis by (cases x) auto
  qed
qed

lemma update_absent: "k \<notin> fst ` set al \<Longrightarrow> AList.update k v al = al @ [(k, v)]"
  by (induction al) auto

lemma existingKeys_inProgressOf:
  "filter (\<lambda>k. startsWith k (label tf)) (map fst (candlesInProgress b))
     = map fst (inProgressOf tf b)"
  by (simp add: inProgressOf_def filter_map comp_def)

lemma finalizeCandle_buffers:
  "map_of (buffers b) (label tf) = Some buf \<Longrightarrow>
   finalizeCandle c tf b = b\<lparr>buffers := AList.update (label tf) (push (as_candle c) buf) (buffers b)\<rparr>"
  by (simp add: finalizeCandle_def as_candle_def)

lemma updateCandle_same_window:
  assumes "map_of (candlesInProgress b) (candle_key (label tf) (getWindowStart t (seconds tf))) = Some c"
  shows "updateCandle tick t tf b =
     b\<lparr>candlesInProgress :=
         AList.update (candle_key (label tf) (getWindowStart t (seconds tf)))
           (c\<lparr>p_high := max (p_high c) (price tick), p_low := min (p_low c) (price tick),
              p_close := price tick, p_volume := p_volume c + or_zero (tsize tick),
              p_lastUpdate := t\<rparr>)
           (candlesInProgress b)\<rparr>"
  using assms by (simp add: updateCandle_def Let_def)

lemma updateCandle_first_window:
  assumes "map_of (candlesInProgress b) (candle_key (label tf) (getWindowStart t (seconds tf))) = None"
    and "inProgressOf tf b = []"
  shows "updateCandle tick t tf b =
     b\<lparr>candlesInProgress := candlesInProgress b
         @ [(candle_key (label tf) (getWindowStart t (seconds tf)),
             first_candle tick t (getWindowStart t (seconds tf)))]\<rparr>"
proof -
  have "candle_key (label tf) (getWindowStart t (seconds tf)) \<notin> fst ` set (candlesInProgress b)"
    using assms(1) by (simp add: map_of_eq_None_iff)
  then show ?thesis
    using assms
    by (simp add: updateCandle_def Let_def existingKeys_inProgressOf update_absent first_candle_def)
qed

lemma updateCandle_new_window:
  assumes "map_of (candlesInProgress b) (candle_key (label tf) (getWindowStart t (seconds tf))) = None"
    and "distinct (map fst (candlesInProgress b))"
    and "inProgressOf tf b = [(k0, c0)]"
    and "map_of (buffers b) (label tf) = Some buf"
  shows "updateCandle tick t tf b =
     b\<lparr>buffers := AList.update (label tf) (push (as_candle c0) buf) (buffers b),
       candlesInProgress := AList.delete k0 (candlesInProgress b)
         @ [(candle_key (label tf) (getWindowStart t (seconds tf)),
             first_candle tick t (getWindowStart t (seconds tf)))]\<rparr>"
proof -
  let ?key = "candle_key (label tf) (getWindowStart t (seconds tf))"
  have "(k0, c0) \<in> set (inProgressOf tf b)" using assms(3) by simp
  then have "(k0, c0) \<in> set (candlesInProgress b)" by (simp add: inProgressOf_def)
  then have get: "map_of (candlesInProgress b) k0 = Some c0"
    using assms(2) by (intro map_of_is_SomeI)
  have "?key \<notin> fst ` set (candlesInProgress b)"
    using assms(1) by (simp add: map_of_eq_None_iff)
  then have "?key \<notin> fst ` set (AList.delete k0 (candlesInProgress b))"
    using set_delete_subset [of k0 "candlesInProgress b"] by fastforce
  then have upd: "AList.update ?key v (AList.delete k0 (candlesInProgress b))
      = AList.delete k0 (candlesInProgress b) @ [(?key, v)]" for v
    by (rule update_absent)
  show ?thesis
    using assms(1,3) get
    by (simp add: updateCandle_def Let_def existingKeys_inProgressOf finalizeKey_def
        finalizeCandle_buffers [OF assms(4)] upd first_candle_def)
qed

lemma push_sorted:
  assumes "sorted_wrt (<) (map datetime (items buf))"
    and "\<forall>d\<in>set (items buf). datetime d < datetime x"
  shows "sorted_wrt (<) (map datetime (items (push x buf)))"
proof -
  have all: "sorted_wrt (<) (map datetime (items buf @ [x]))"
    using assms by (auto simp: sorted_wrt_append)
  then have "sorted_wrt (<) (map datetime (tl (items buf @ [x])))"
    by (cases "items buf @ [x]") auto
  with all show ?thesis by (simp add: push_def Let_def)
qed

lemma tf_state_ok_later: "tf_state_ok ord T tf cs buf \<Longrightarrow> T \<le> T' \<Longrightarrow> tf_state_ok ord T' tf cs buf"
  by (fastforce simp: tf_state_ok_def)

lemma builder_inv_later: "builder_inv ord T tfs b \<Longrightarrow> T \<le> T' \<Longrightarrow> builder_inv ord T' tfs b"
  unfolding builder_inv_def using tf_state_ok_later by blast

text \<open>The state of a timeframe after a tick opened a window for it.\<close>

lemma tf_state_ok_opened:
  assumes "tf_state_ok ord t tf cs buf" "cs = []" "(seconds tf * 1000) dvd w" "w \<le> t"
    "p_startTime c = w"
  shows "tf_state_ok ord t tf [(candle_key (label tf) w, c)] buf"
  using assms by (auto simp: tf_state_ok_def)

lemma tf_state_ok_rolled:
  assumes ok: "tf_state_ok ord t tf [(k0, c0)] buf"
    and w: "(seconds tf * 1000) dvd w" "w \<le> t" "p_startTime c = w"
    and lt: "ord \<longrightarrow> p_startTime c0 < w"
  shows "tf_state_ok ord t tf [(candle_key (label tf) w, c)] (push (as_candle c0) buf)"
proof -
  have al: "\<forall>d\<in>set (items buf). (seconds tf * 1000) dvd datetime d"
    and al0: "(seconds tf * 1000) dvd p_startTime c0"
    using ok by (auto simp: tf_state_ok_def)
  have sub: "set (items (push (as_candle c0) buf)) \<subseteq> insert (as_candle c0) (set (items buf))"
    by (rule push_items_subset)
  have 1: "\<forall>d\<in>set (items (push (as_candle c0) buf)). (seconds tf * 1000) dvd datetime d"
    using al al0 sub by (auto simp: as_candle_def)
  have 2: "sorted_wrt (<) (map datetime (items (push (as_candle c0) buf)))
          \<and> (\<forall>d\<in>set (items (push (as_candle c0) buf)). datetime d < w)" if ord
  proof -
    have s: "sorted_wrt (<) (map datetime (items buf))"
      and b: "\<forall>d\<in>set (items buf). datetime d < p_startTime c0"
      using ok that by (auto simp: tf_state_ok_def)
    have "sorted_wrt (<) (map datetime (items (push (as_candle c0) buf)))"
      using s b by (intro push_sorted) (auto simp: as_candle_def)
    moreover have "\<forall>d\<in>set (items (push (as_candle c0) buf)). datetime d < w"
      using b lt that sub by (fastforce simp: as_candle_def)
    ultimately show ?thesis by simp
  qed
  show ?thesis
    unfolding tf_state_ok_def using 1 2 w by auto
qed

lemma tf_state_ok_updated:
  assumes "tf_state_ok ord t tf [(k, c)] buf" "p_startTime c' = p_startTime c"
  shows "tf_state_ok ord t tf [(k, c')] buf"
  using assms by (auto simp: tf_state_ok_def)

lemma filter_map_key:
  "(\<And>kc. fst (g kc) = fst kc) \<Longrightarrow>
   filter (\<lambda>kc. Q (fst kc)) (map g al) = map g (filter (\<lambda>kc. Q (fst kc)) al)"
  by (induction al) auto

lemma updateCandle_inv:
  assumes li: "labels_independent tfs" and pos: "\<forall>x\<in>set tfs. 0 < seconds x"
    and tf: "tf \<in> set tfs" and inv: "builder_inv ord t tfs b"
  shows "builder_inv ord t tfs (updateCandle tick t tf b)"
proof -
  let ?w = "getWindowStart t (seconds tf)"
  let ?key = "candle_key (label tf) ?w"
  let ?cips = "candlesInProgress b"
  let ?cand = "first_candle tick t ?w"
  have tfs: "timeframes b = tfs" and dist: "distinct (map fst ?cips)"
    using inv by (auto simp: builder_inv_def)
  have each: "\<exists>buf. map_of (buffers b) (label x) = Some buf
                  \<and> tf_state_ok ord t x (inProgressOf x b) buf" if "x \<in> set tfs" for x
    using inv that by (auto simp: builder_inv_def)
  obtain buf where buf: "map_of (buffers b) (label tf) = Some buf"
    and ok: "tf_state_ok ord t tf (inProgressOf tf b) buf"
    using each [OF tf] by blast
  have w_al: "(seconds tf * 1000) dvd ?w" by (rule window_aligned)
  have w_le: "?w \<le> t" using pos tf by (intro window_le) auto
  have key_tf: "startsWith (candle_key (label tf) v) (label x) \<longleftrightarrow> x = tf" if "x \<in> set tfs" for x v
    using key_of_other_label [OF li that tf] label_inj [OF li that tf] by auto
  have other_keys: "fst kc \<noteq> candle_key (label tf) v"
    if "x \<in> set tfs" "x \<noteq> tf" "kc \<in> set (inProgressOf x b)" for x kc v
    using that key_tf [of x v] by (auto simp: inProgressOf_def)
  have cand_start: "p_startTime ?cand = ?w" by (simp add: first_candle_def)
  show ?thesis
  proof (cases "map_of ?cips ?key")
    case (Some c)
    let ?c2 = "c\<lparr>p_high := max (p_high c) (price tick), p_low := min (p_low c) (price tick),
                 p_close := price tick, p_volume := p_volume c + or_zero (tsize tick),
                 p_lastUpdate := t\<rparr>"
    let ?g = "\<lambda>kc. if fst kc = ?key then (?key, ?c2) else kc"
    let ?b' = "b\<lparr>candlesInProgress := map ?g ?cips\<rparr>"
    have mem: "(?key, c) \<in> set ?cips" using Some by (rule map_of_SomeD)
    have b': "updateCandle tick t tf b = ?b'"
      using updateCandle_same_window [OF Some] update_present [OF dist mem] by simp
    have fst_g: "fst (?g kc) = fst kc" for kc by simp
    have ip: "inProgressOf x ?b' = map ?g (inProgressOf x b)" for x
      using filter_map_key [of ?g "\<lambda>k. startsWith k (label x)" ?cips, OF fst_g]
      by (simp add: inProgressOf_def)
    have "(?key, c) \<in> set (inProgressOf tf b)"
      using mem key_tf [OF tf] by (simp add: inProgressOf_def)
    then have one: "inProgressOf tf b = [(?key, c)]"
      using ok by (auto simp: tf_state_ok_def)
    have d': "distinct (map fst (candlesInProgress ?b'))"
      using dist by (simp add: comp_def if_distrib [of fst] cong: if_cong)
    have "\<exists>buf'. map_of (buffers ?b') (label x) = Some buf'
            \<and> tf_state_ok ord t x (inProgressOf x ?b') buf'" if x: "x \<in> set tfs" for x
    proof (cases "x = tf")
      case True
      have "tf_state_ok ord t tf [(?key, ?c2)] buf"
        using ok unfolding one by (rule tf_state_ok_updated) simp
      then show ?thesis using True buf by (simp add: ip one)
    next
      case False
      have "map ?g (inProgressOf x b) = inProgressOf x b"
        using other_keys [OF x False] by (intro map_idI) auto
      then show ?thesis using each [OF x] by (simp add: ip)
    qed
    then show ?thesis
      unfolding b' builder_inv_def using tfs d' by simp
  next
    case None
    have absent: "?key \<notin> fst ` set ?cips"
      using None by (simp add: map_of_eq_None_iff)
    show ?thesis
    proof (cases "inProgressOf tf b = []")
      case True
      let ?b' = "b\<lparr>candlesInProgress := ?cips @ [(?key, ?cand)]\<rparr>"
      have b': "updateCandle tick t tf b = ?b'"
        using None True by (rule updateCandle_first_window)
      have ip: "inProgressOf x ?b' = inProgressOf x b @ (if x = tf then [(?key, ?cand)] else [])"
        if "x \<in> set tfs" for x
        using key_tf [OF that] by (simp add: inProgressOf_def)
      have d': "distinct (map fst (candlesInProgress ?b'))"
        using dist absent by simp
      have "\<exists>buf'. map_of (buffers ?b') (label x) = Some buf'
              \<and> tf_state_ok ord t x (inProgressOf x ?b') buf'" if x: "x \<in> set tfs" for x
      proof (cases "x = tf")
        case True': True
        have "tf_state_ok ord t tf [(?key, ?cand)] buf"
          using ok True w_al w_le cand_start by (rule tf_state_ok_opened)
        then show ?thesis using True' True buf by (simp add: ip [OF tf])
      next
        case False
        then show ?thesis using each [OF x] by (simp add: ip [OF x])
      qed
      then show ?thesis
        unfolding b' builder_inv_def using tfs d' by simp
    next
      case False
      then obtain c0 where one: "inProgressOf tf b = [(candle_key (label tf) (p_startTime c0), c0)]"
        and al0: "(seconds tf * 1000) dvd p_startTime c0"
        using ok by (auto simp: tf_state_ok_def)
      let ?k0 = "candle_key (label tf) (p_startTime c0)"
      let ?b' = "b\<lparr>buffers := AList.update (label tf) (push (as_candle c0) buf) (buffers b),
                   candlesInProgress := AList.delete ?k0 ?cips @ [(?key, ?cand)]\<rparr>"
      have b': "updateCandle tick t tf b = ?b'"
        using None dist one buf by (rule updateCandle_new_window)
      have "(?k0, c0) \<in> set (inProgressOf tf b)" using one by simp
      then have mem0: "(?k0, c0) \<in> set ?cips" by (simp add: inProgressOf_def)
      have ne: "p_startTime c0 \<noteq> ?w"
        using mem0 absent by force
      have lt: "ord \<longrightarrow> p_startTime c0 < ?w"
      proof
        assume ord
        then have "p_startTime c0 \<le> t" using ok one by (auto simp: tf_state_ok_def)
        then have "p_startTime c0 \<le> ?w"
          using pos tf al0 by (intro window_greatest) auto
        with ne show "p_startTime c0 < ?w" by simp
      qed
      have ip: "inProgressOf x ?b'
          = filter (\<lambda>kc. fst kc \<noteq> ?k0) (inProgressOf x b) @ (if x = tf then [(?key, ?cand)] else [])"
        if "x \<in> set tfs" for x
        using key_tf [OF that] by (simp add: inProgressOf_def filter_delete)
      have d': "distinct (map fst (candlesInProgress ?b'))"
        using dist absent set_delete_subset [of ?k0 ?cips]
        by (auto simp: distinct_delete)
      have "\<exists>buf'. map_of (buffers ?b') (label x) = Some buf'
              \<and> tf_state_ok ord t x (inProgressOf x ?b') buf'" if x: "x \<in> set tfs" for x
      proof (cases "x = tf")
        case True
        have "tf_state_ok ord t tf [(?key, ?cand)] (push (as_candle c0) buf)"
          using ok [unfolded one] w_al w_le cand_start lt by (rule tf_state_ok_rolled)
        then show ?thesis using True by (simp add: ip [OF tf] one update_conv')
      next
        case False
        have "filter (\<lambda>kc. fst kc \<noteq> ?k0) (inProgressOf x b) = inProgressOf x b"
          using other_keys [OF x False] by (intro filter_True) auto
        moreover have "label x \<noteq> label tf"
          using False label_inj [OF li x tf] by auto
        ultimately show ?thesis using each [OF x] False by (simp add: ip [OF x] update_conv')
      qed
      then show ?thesis
        unfolding b' builder_inv_def using tfs d' by simp
    qed
  qed
qed

lemma fold_updateCandle_inv:
  assumes "labels_independent tfs" "\<forall>x\<in>set tfs. 0 < seconds x"
  shows "set xs \<subseteq> set tfs \<Longrightarrow> builder_inv ord t tfs b \<Longrightarrow>
         builder_inv ord t tfs (fold (updateCandle tick t) xs b)"
proof (induction xs arbitrary: b)
  case Nil
  then show ?case by simp
next
  case (Cons x xs)
  have "builder_inv ord t tfs (updateCandle tick t x b)"
    using assms Cons.prems by (intro updateCandle_inv) auto
  then show ?case using Cons by simp
qed

lemma builder_inv_unordered: "builder_inv False T tfs b \<Longrightarrow> builder_inv False T' tfs b"
  by (simp add: builder_inv_def tf_state_ok_def)

lemma addTick_inv:
  assumes "labels_independent tfs" "\<forall>x\<in>set tfs. 0 < seconds x"
    and inv: "builder_inv ord T tfs b" and le: "ord \<longrightarrow> T \<le> ts tick"
  shows "builder_inv ord (ts tick) tfs (addTick tick b)"
proof -
  have now: "builder_inv ord (ts tick) tfs b"
  proof (cases ord)
    case True
    then show ?thesis using inv le builder_inv_later by blast
  next
    case False
    then show ?thesis using inv builder_inv_unordered [of T tfs b "ts tick"] by simp
  qed
  have "timeframes b = tfs" using inv by (simp add: builder_inv_def)
  then have "builder_inv ord (ts tick) tfs (fold (updateCandle tick (ts tick)) (timeframes b) b)"
    using assms(1,2) now by (intro fold_updateCandle_inv) auto
  with now show ?thesis by (simp add: addTick_def)
qed

lemma ticks_inv:
  assumes "labels_independent tfs" "\<forall>x\<in>set tfs. 0 < seconds x"
  shows "builder_inv ord T tfs b \<Longrightarrow> (ord \<longrightarrow> sorted (T # map ts ticks)) \<Longrightarrow>
         \<exists>T'. builder_inv ord T' tfs (fold addTick ticks b)"
proof (induction ticks arbitrary: T b)
  case Nil
  then show ?case by auto
next
  case (Cons tick ticks)
  have "builder_inv ord (ts tick) tfs (addTick tick b)"
    using assms Cons.prems by (intro addTick_inv) auto
  moreover have "ord \<longrightarrow> sorted (ts tick # map ts ticks)"
    using Cons.prems(2) by auto
  ultimately show ?case using Cons.IH by simp
qed

lemma new_buffers_keys:
  "fst ` set (fold (\<lambda>tf bs. AList.update (label tf) (new_Buffer (bufferSize tf) (label tf)) bs)
                tfs acc) = fst ` set acc \<union> label ` set tfs"
  by (induction tfs arbitrary: acc) (auto simp: dom_update)

lemma new_inv: "builder_inv ord T tfs (new_CandleBuilder sy tfs)"
proof -
  let ?bufs = "fold (\<lambda>tf bs. AList.update (label tf) (new_Buffer (bufferSize tf) (label tf)) bs)
                 tfs ([] :: (string \<times> Candle Buffer) list)"
  have "\<exists>buf. map_of ?bufs (label x) = Some buf \<and> items buf = []" if "x \<in> set tfs" for x
  proof -
    have "label x \<in> fst ` set ?bufs"
      using that by (simp add: new_buffers_keys)
    then have "map_of ?bufs (label x) \<noteq> None"
      by (simp add: map_of_eq_None_iff)
    then obtain buf where m: "map_of ?bufs (label x) = Some buf"
      by blast
    then have "(label x, buf) \<in> set ?bufs" by (rule map_of_SomeD)
    then have "items buf = []"
      using new_buffers_empty [of "[]" tfs] by auto
    with m show ?thesis by simp
  qed
  then show ?thesis
    by (fastforce simp: builder_inv_def new_CandleBuilder_def inProgressOf_def tf_state_ok_def)
qed



lemma in_progress_at_most_one:
  assumes "labels_independent tfs" "\<forall>x\<in>set tfs. 0 < seconds x" "tf \<in> set tfs"
  shows "length (inProgressOf tf (fold addTick ticks (new_CandleBuilder sy tfs))) \<le> 1"
proof -
  obtain T' where "builder_inv False T' tfs (fold addTick ticks (new_CandleBuilder sy tfs))"
    using ticks_inv [OF assms(1,2) new_inv, of False 0 ticks sy] by blast
  then show ?thesis
    using assms(3) by (auto simp: builder_inv_def tf_state_ok_def)
qed










abbreviation (input) tf_1m :: TimeframeConfig where
  "tf_1m \<equiv> \<lparr>seconds = 60, label = ''1m'', bufferSize = 5000\<rparr>"

abbreviation (input) tf_1mo :: TimeframeConfig where
  "tf_1mo \<equiv> \<lparr>seconds = 2592000, label = ''1mo'', bufferSize = 5000\<rparr>"

lemma keys_1m:
  "candle_key ''1m'' 0 = ''1m_0''"
  "candle_key ''1m'' 60000 = ''1m_60000''"
  "candle_key ''1mo'' 0 = ''1mo_0''"
  by (simp_all add: candle_key_def Number_toString_def dec_nat.simps digit_char_def)

lemma prefix_labels_first_tick:
  "addTick (trade 0 100 1) (new_CandleBuilder ''AAPL'' [tf_1m, tf_1mo])
   = \<lparr>buffers = [(''1m'', \<lparr>maxSize = 5000, items = [], timeframeLabel = ''1m''\<rparr>),
                 (''1mo'', \<lparr>maxSize = 5000, items = [], timeframeLabel = ''1mo''\<rparr>)],
      candlesInProgress =
        [(''1m_0'', \<lparr>p_open = 100, p_high = 100, p_low = 100, p_close = 100, p_volume = 1,
                     p_startTime = 0, p_lastUpdate = 0\<rparr>),
         (''1mo_0'', \<lparr>p_open = 100, p_high = 100, p_low = 100, p_close = 100, p_volume = 1,
                      p_startTime = 0, p_lastUpdate = 0\<rparr>)],
      timeframes = [tf_1m, tf_1mo],
      cb_symbol = ''AAPL''\<rparr>"
  by (simp add: builder_eval keys_1m)

text \<open>
  Claim C4. A tick whose window has no candle in progress is specified to finalize the
  other candles in progress of the same timeframe and no candle of another timeframe.
  The keys are selected by \<^verbatim>\<open>startsWith(tf.label)\<close>, so a timeframe whose label extends
  another label is selected too. With the timeframes \<open>1m\<close> and \<open>1mo\<close>, the tick at 60000 ms
  opens a new minute: the candle of \<open>1mo\<close> is finalized with the candle of \<open>1m\<close>, both are
  pushed into the buffer of \<open>1m\<close>, the buffer of \<open>1mo\<close> receives nothing, and the candle of
  \<open>1mo\<close> restarts from this tick (open 105 instead of 100).
\<close>

theorem C4_prefix_label_evicts_other_timeframe:
  "addTick (trade 60000 105 1) (addTick (trade 0 100 1) (new_CandleBuilder ''AAPL'' [tf_1m, tf_1mo]))
   = \<lparr>buffers =
        [(''1m'', \<lparr>maxSize = 5000,
                  items = [\<lparr>datetime = 0, c_open = 100, c_high = 100, c_low = 100,
                            c_close = 100, c_volume = 1\<rparr>,
                           \<lparr>datetime = 0, c_open = 100, c_high = 100, c_low = 100,
                            c_close = 100, c_volume = 1\<rparr>],
                  timeframeLabel = ''1m''\<rparr>),
         (''1mo'', \<lparr>maxSize = 5000, items = [], timeframeLabel = ''1mo''\<rparr>)],
      candlesInProgress =
        [(''1m_60000'', \<lparr>p_open = 105, p_high = 105, p_low = 105, p_close = 105, p_volume = 1,
                         p_startTime = 60000, p_lastUpdate = 60000\<rparr>),
         (''1mo_0'', \<lparr>p_open = 105, p_high = 105, p_low = 105, p_close = 105, p_volume = 1,
                      p_startTime = 0, p_lastUpdate = 60000\<rparr>)],
      timeframes = [tf_1m, tf_1mo],
      cb_symbol = ''AAPL''\<rparr>"
  unfolding prefix_labels_first_tick by (simp add: builder_eval keys_1m)

section \<open>Causal API dispatcher (\<^verbatim>\<open>core/cilAdapter.ts\<close>; \<^verbatim>\<open>UnivariateAdapter\<close> in \<^verbatim>\<open>core/univariateBuilder.ts\<close>)\<close>

record CILAdapterConfig =
  apiUrl :: string
  apiKey :: "string option"
  rowCount :: int

text \<open>The constructor: \<^verbatim>\<open>rowCount: config.rowCount || 5001\<close>.\<close>

definition new_CILAdapter :: "CILAdapterConfig \<Rightarrow> CILAdapterConfig" where
  "new_CILAdapter config = config\<lparr>rowCount := (if rowCount config = 0 then 5001 else rowCount config)\<rparr>"

text \<open>\<^verbatim>\<open>getTimeframeSeconds\<close>: the label is matched against \<^verbatim>\<open>/^(\d+)(s|m|h)$/\<close>, that is one
  or more digits followed by one of the letters s, m, h and nothing else; \<^verbatim>\<open>parseInt\<close> of
  the digits is their decimal value. Any other label gives 60.\<close>

definition is_digit :: "char \<Rightarrow> bool" where
  "is_digit c = (c \<in> set ''0123456789'')"

definition parseInt_digits :: "string \<Rightarrow> int" where
  "parseInt_digits ds = foldl (\<lambda>acc c. acc * 10 + (int (of_char c) - 48)) 0 ds"

definition getTimeframeSeconds :: "string \<Rightarrow> int" where
  "getTimeframeSeconds lbl =
     (case rev lbl of
        [] \<Rightarrow> 60
      | unit # rds \<Rightarrow>
          if rds \<noteq> [] \<and> list_all is_digit rds \<and> unit \<in> set ''smh''
          then (let v = parseInt_digits (rev rds)
                in if unit = CHR ''s'' then v
                   else if unit = CHR ''m'' then v * 60
                   else v * 3600)
          else 60)"

text \<open>\<^verbatim>\<open>getNextDatetime\<close>: \<^verbatim>\<open>new Date(lastDate.getTime() + timeframeSeconds * 1000).toISOString()\<close>.\<close>

definition getNextDatetime :: "int \<Rightarrow> string \<Rightarrow> js_error + int" where
  "getNextDatetime lastDatetime tfLabel =
     toISOString (lastDatetime + getTimeframeSeconds tfLabel * 1000)"

text \<open>\<^verbatim>\<open>rows.join('\n')\<close>.\<close>

definition newline :: char where
  "newline = CHR 0x0A"

fun join :: "string \<Rightarrow> string list \<Rightarrow> string" where
  "join sep [] = []"
| "join sep [x] = x"
| "join sep (x # y # zs) = x @ sep @ join sep (y # zs)"


text \<open>
  The rows of the payload are template literals over the fields of a record. The
  conversions of the template literal are parameters: \<open>isoStr\<close> gives the ISO-8601 string
  of an instant (the \<^verbatim>\<open>datetime\<close> field of the source) and \<open>numStr\<close> the string of a number.
\<close>

definition csv_row :: "(int \<Rightarrow> string) \<Rightarrow> (real \<Rightarrow> string) \<Rightarrow> Candle \<Rightarrow> string" where
  "csv_row isoStr numStr candle =
     isoStr (datetime candle) @ '','' @ numStr (c_open candle) @ '','' @ numStr (c_high candle)
       @ '','' @ numStr (c_low candle) @ '','' @ numStr (c_close candle)"

definition buildCSVPayload ::
  "(int \<Rightarrow> string) \<Rightarrow> (real \<Rightarrow> string) \<Rightarrow> Candle list \<Rightarrow> string \<Rightarrow> js_error + string" where
  "buildCSVPayload isoStr numStr candles tfLabel =
     (let rows = ''datetime,open,high,low,close'' # map (csv_row isoStr numStr) candles
      in case rev candles of
           [] \<Rightarrow> Inl TypeError
         | lastCandle # earlier \<Rightarrow>
             (case getNextDatetime (datetime lastCandle) tfLabel of
                Inl err \<Rightarrow> Inl err
              | Inr nextDatetime \<Rightarrow>
                  Inr (join [newline] (rows @ [isoStr nextDatetime @ '',0,0,0,0'']))))"











section \<open>Results on the dispatcher\<close>

lemma secs_eval:
  "getTimeframeSeconds ''1m'' = 60" "getTimeframeSeconds ''1d'' = 60" "getTimeframeSeconds ''15s'' = 15"
  "getTimeframeSeconds ''1h'' = 3600"
  by (simp_all add: getTimeframeSeconds_def is_digit_def parseInt_digits_def)
















subsection \<open>A concrete dispatch\<close>




abbreviation (input) decimal_floor :: "real \<Rightarrow> string" where
  "decimal_floor \<equiv> \<lambda>x. Number_toString \<lfloor>x\<rfloor>"

abbreviation (input) dispatcher :: "int \<Rightarrow> CILAdapterConfig" where
  "dispatcher n \<equiv> new_CILAdapter \<lparr>apiUrl = ''https://cil.example/analyze'', apiKey = None, rowCount = n\<rparr>"

abbreviation (input) minute_candle :: "int \<Rightarrow> real \<Rightarrow> Candle" where
  "minute_candle t p \<equiv>
     \<lparr>datetime = t, c_open = p, c_high = p + 2, c_low = p - 1, c_close = p + 1, c_volume = 4\<rparr>"

abbreviation (input) minute_buffer :: "Candle Buffer" where
  "minute_buffer \<equiv>
     \<lparr>maxSize = 5000,
      items = [minute_candle 0 100, minute_candle 60000 101, minute_candle 120000 102],
      timeframeLabel = ''1m''\<rparr>"



lemma decimals:
  "Number_toString 0 = ''0''"
  "Number_toString 60000 = ''60000''"
  "Number_toString 120000 = ''120000''"
  "Number_toString 180000 = ''180000''"
  "Number_toString 20 = ''20''"
  "Number_toString 21 = ''21''"
  "Number_toString 22 = ''22''"
  "Number_toString 99 = ''99''"
  "Number_toString 100 = ''100''"
  "Number_toString 101 = ''101''"
  "Number_toString 102 = ''102''"
  "Number_toString 103 = ''103''"
  "Number_toString 104 = ''104''"
  by (simp_all add: Number_toString_def dec_nat.simps digit_char_def)











text \<open>With \<open>row-count = 1\<close> the dispatcher asks for \<^verbatim>\<open>getLast(0)\<close>, which returns the whole
  buffer, and the payload has as many rows as the buffer has records.\<close>

lemma row_count_one_payload:
  "buildCSVPayload Number_toString decimal_floor
     (getLast (rowCount (dispatcher 1) - 1) minute_buffer) ''1m''
   = Inr (join [newline]
       [''datetime,open,high,low,close'', ''0,100,102,99,101'', ''60000,101,103,100,102'',
        ''120000,102,104,101,103'', ''180000,0,0,0,0''])"
  by (simp add: new_CILAdapter_def getLast_def slice_from_def buildCSVPayload_def
      getNextDatetime_def toISOString_def getTimeframeSeconds_def is_digit_def
      parseInt_digits_def csv_row_def decimals)

end
